theory Spec2Isabelle
  imports Main "HOL-Library.Word"
begin

section \<open>Strings: the JavaScript built-ins used by theme-toggle.js\<close>

text \<open>
  Strings are character lists. \<open>className.split(' ')\<close> cuts at every single space
  character (and at nothing else), keeping empty pieces: the empty string gives one empty
  piece, two adjacent spaces give an empty piece between them.
\<close>

fun split_on :: "char \<Rightarrow> string \<Rightarrow> string list" where
  "split_on c [] = [] # []"
| "split_on c (x # xs) =
     (if x = c then [] # split_on c xs
      else (case split_on c xs of
              [] \<Rightarrow> [x] # []
            | t # ts \<Rightarrow> (x # t) # ts))"

definition split_sp :: "string \<Rightarrow> string list" where
  "split_sp s = split_on (CHR '' '') s"

text \<open>\<open>classList.join(' ')\<close>: the pieces with one space between neighbours.\<close>

fun join_with :: "char \<Rightarrow> string list \<Rightarrow> string" where
  "join_with c [] = []"
| "join_with c [t] = t"
| "join_with c (t # u # ts) = t @ c # join_with c (u # ts)"

definition join_sp :: "string list \<Rightarrow> string" where
  "join_sp ts = join_with (CHR '' '') ts"

text \<open>
  How the root element itself reads its class attribute (\<open>classList\<close>, class
  selectors): the attribute is cut at every ASCII white space character, which are tab,
  line feed, form feed, carriage return and space, and the empty pieces are dropped.
\<close>

definition is_ascii_whitespace :: "char \<Rightarrow> bool" where
  "is_ascii_whitespace c = (c \<in> set [CHR 0x09, CHR 0x0A, CHR 0x0C, CHR 0x0D, CHR '' ''])"

fun split_where :: "(char \<Rightarrow> bool) \<Rightarrow> string \<Rightarrow> string list" where
  "split_where P [] = [] # []"
| "split_where P (x # xs) =
     (if P x then [] # split_where P xs
      else (case split_where P xs of
              [] \<Rightarrow> [x] # []
            | t # ts \<Rightarrow> (x # t) # ts))"

definition class_tokens :: "string \<Rightarrow> string list" where
  "class_tokens s = filter (\<lambda>t. t \<noteq> []) (split_where is_ascii_whitespace s)"

text \<open>
  Text contents and resolved style values are sequences of UTF-16 code units, since
  \<open>String.prototype.trim\<close> depends on them: it strips, at both ends, the white space
  and line terminator code points of the language, which are U+0009 to U+000D, U+0020,
  U+00A0, U+1680, U+2000 to U+200A, U+2028, U+2029, U+202F, U+205F, U+3000 and U+FEFF.
  A class attribute shown as text is the same characters, one code unit each.
\<close>

type_synonym domstring = "16 word list"

definition is_ws :: "16 word \<Rightarrow> bool" where
  "is_ws u =
     (u \<in> set [0x0009, 0x000A, 0x000B, 0x000C, 0x000D, 0x0020, 0x00A0, 0x1680,
                0x2028, 0x2029, 0x202F, 0x205F, 0x3000, 0xFEFF] \<or>
      (0x2000 \<le> u \<and> u \<le> 0x200A))"

definition trim :: "domstring \<Rightarrow> domstring" where
  "trim s = rev (dropWhile is_ws (rev (dropWhile is_ws s)))"

definition code_units :: "string \<Rightarrow> domstring" where
  "code_units s = map of_char s"

text \<open>The operand choice of \<open>saved.brand || 'Brand-A'\<close> on a value that is a string or
  \<open>null\<close>: \<open>null\<close> and the empty string are falsy.\<close>

definition or_default :: "string option \<Rightarrow> string \<Rightarrow> string" where
  "or_default v d = (case v of None \<Rightarrow> d | Some s \<Rightarrow> if s = [] then d else s)"

section \<open>The page: document, style sheet, storage, console\<close>

datatype exn = TypeError | StorageError

text \<open>
  The effects of the script, in the order in which they happen. A style read records the
  class attribute of the root element at the moment of the read.
\<close>

datatype event =
    ClassNameWrite string
  | StyleRead string string
  | TextWrite nat domstring
  | SetItem string string bool
  | GetItem string bool
  | Warn string
  | InitLog string string string string

text \<open>
  The elements of the page, listed in document order, so a child comes after its parent.
  The child nodes of an element are text nodes and elements, the latter given by their
  place in the list. An element that has been removed from the document stays in the list
  (the script may still hold a reference to it) and is marked as no longer attached.
\<close>

datatype item = Txt domstring | Child nat

record element =
  ident :: "string option"
  data_var :: "string option"
  content :: "item list"
  attached :: bool

record select =
  options :: "string list"
  selected :: string

datatype handler = HandleBrandChange | HandleModeChange

record page =
  className :: string
  elements :: "element list"
  classesDisplay :: "nat option"
  brandSelect :: "select option"
  modeSelect :: "select option"
  stylesheet :: "string \<Rightarrow> string \<Rightarrow> domstring"
  storage :: "string \<rightharpoonup> string"
  setItem_throws :: "(string \<rightharpoonup> string) \<Rightarrow> string \<Rightarrow> string \<Rightarrow> bool"
  getItem_throws :: "string \<Rightarrow> bool"
  brand_listeners :: "handler list"
  mode_listeners :: "handler list"
  trace :: "event list"

text \<open>
  An operation either returns (\<open>Inr\<close>) or throws (\<open>Inl\<close>); a throw carries the
  exception together with the page as the operation left it, since effects that happened
  before the throw stay.
\<close>

type_synonym 'a result = "(exn \<times> page) + 'a"

definition bind_r :: "'a result \<Rightarrow> ('a \<Rightarrow> 'b result) \<Rightarrow> 'b result" where
  "bind_r m f = (case m of Inl e \<Rightarrow> Inl e | Inr a \<Rightarrow> f a)"

fun forEach :: "('a \<Rightarrow> page \<Rightarrow> page result) \<Rightarrow> 'a list \<Rightarrow> page \<Rightarrow> page result" where
  "forEach f [] st = Inr st"
| "forEach f (x # xs) st = bind_r (f x st) (forEach f xs)"

definition STORAGE_KEY_BRAND :: string where
  "STORAGE_KEY_BRAND = ''ds-theme-brand''"

definition STORAGE_KEY_MODE :: string where
  "STORAGE_KEY_MODE = ''ds-theme-mode''"

subsection \<open>DOM and storage primitives\<close>

text \<open>Reading \<open>textContent\<close>: the texts of all text nodes below the element, in
  document order.\<close>

function textContent :: "element list \<Rightarrow> nat \<Rightarrow> domstring" where
  "textContent els k =
     (if k < length els
      then concat (map (\<lambda>it. case it of
                               Txt t \<Rightarrow> t
                             | Child c \<Rightarrow> (if k < c then textContent els c else []))
                       (content (els ! k)))
      else [])"
  by pat_completeness auto
termination
  by (relation "measure (\<lambda>(els, k). length els - k)") auto

text \<open>The elements below an element.\<close>

function descendants :: "element list \<Rightarrow> nat \<Rightarrow> nat list" where
  "descendants els k =
     (if k < length els
      then concat (map (\<lambda>it. case it of
                               Txt t \<Rightarrow> []
                             | Child c \<Rightarrow> (if k < c then c # descendants els c else []))
                       (content (els ! k)))
      else [])"
  by pat_completeness auto
termination
  by (relation "measure (\<lambda>(els, k). length els - k)") auto

declare textContent.simps [simp del] descendants.simps [simp del]

text \<open>\<open>document.getElementById\<close>: the first element of the document with that id.\<close>

definition getElementById :: "string \<Rightarrow> page \<Rightarrow> nat option" where
  "getElementById i st =
     (case filter (\<lambda>k. attached (elements st ! k) \<and> ident (elements st ! k) = Some i)
             [0 ..< length (elements st)] of
        [] \<Rightarrow> None
      | k # _ \<Rightarrow> Some k)"

text \<open>\<open>querySelectorAll('.swatch-value[data-var]')\<close>: the matching elements of the
  document, each with the value that \<open>getAttribute('data-var')\<close> gives for it. The list
  is made once, before the loop runs.\<close>

definition querySwatchValues :: "page \<Rightarrow> (nat \<times> string) list" where
  "querySwatchValues st =
     List.map_filter
       (\<lambda>k. if attached (elements st ! k)
            then (case data_var (elements st ! k) of None \<Rightarrow> None | Some v \<Rightarrow> Some (k, v))
            else None)
       [0 ..< length (elements st)]"

text \<open>
  Assigning \<open>textContent\<close> through a reference that is \<open>null\<close> throws. Through an
  element it replaces all child nodes of the element by one text node, or by nothing when
  the string is empty; every element that was below it thereby leaves the document.
\<close>

definition replace_all :: "element list \<Rightarrow> nat \<Rightarrow> domstring \<Rightarrow> element list" where
  "replace_all els k v =
     (let gone = descendants els k;
          els1 = map (\<lambda>j. if j \<in> set gone then (els ! j)\<lparr>attached := False\<rparr> else els ! j)
                   [0 ..< length els]
      in els1[k := (els1 ! k)\<lparr>content := (if v = [] then [] else [Txt v])\<rparr>])"

definition setTextContent :: "nat option \<Rightarrow> domstring \<Rightarrow> page \<Rightarrow> page result" where
  "setTextContent r v st =
     (case r of
        None \<Rightarrow> Inl (TypeError, st)
      | Some k \<Rightarrow>
          Inr (st\<lparr>elements := replace_all (elements st) k v,
                  trace := trace st @ [TextWrite k v]\<rparr>))"

definition getPropertyValue :: "string \<Rightarrow> page \<Rightarrow> domstring \<times> page" where
  "getPropertyValue varName st =
     (stylesheet st (className st) varName,
      st\<lparr>trace := trace st @ [StyleRead varName (className st)]\<rparr>)"

definition setClassName :: "string \<Rightarrow> page \<Rightarrow> page" where
  "setClassName c st = st\<lparr>className := c, trace := trace st @ [ClassNameWrite c]\<rparr>"

definition setItem :: "string \<Rightarrow> string \<Rightarrow> page \<Rightarrow> page result" where
  "setItem k v st =
     (if setItem_throws st (storage st) k v
      then Inl (StorageError, st\<lparr>trace := trace st @ [SetItem k v False]\<rparr>)
      else Inr (st\<lparr>storage := (storage st)(k \<mapsto> v),
                   trace := trace st @ [SetItem k v True]\<rparr>))"

definition getItem :: "string \<Rightarrow> page \<Rightarrow> (string option \<times> page) result" where
  "getItem k st =
     (if getItem_throws st k
      then Inl (StorageError, st\<lparr>trace := trace st @ [GetItem k False]\<rparr>)
      else Inr (storage st k, st\<lparr>trace := trace st @ [GetItem k True]\<rparr>))"

definition console_warn :: "string \<Rightarrow> page \<Rightarrow> page" where
  "console_warn msg st = st\<lparr>trace := trace st @ [Warn msg]\<rparr>"

text \<open>Assigning \<open>value\<close> on a select element selects the option with that value; with
  no such option nothing is selected and \<open>value\<close> reads as the empty string.\<close>

definition set_value :: "string \<Rightarrow> select \<Rightarrow> select" where
  "set_value v s = s\<lparr>selected := (if v \<in> set (options s) then v else [])\<rparr>"

text \<open>\<open>addEventListener\<close> does not register the same listener twice.\<close>

definition addEventListener :: "handler \<Rightarrow> handler list \<Rightarrow> handler list" where
  "addEventListener h hs = (if h \<in> set hs then hs else hs @ [h])"

section \<open>theme-toggle.js\<close>

definition getThemeClass :: "string \<Rightarrow> string \<Rightarrow> string" where
  "getThemeClass brand mode = concat [brand, ''-'', mode]"

definition updateClassDisplay :: "page \<Rightarrow> page result" where
  "updateClassDisplay st =
     (case classesDisplay st of
        None \<Rightarrow> Inr st
      | Some k \<Rightarrow> setTextContent (Some k) (code_units (className st)) st)"

definition updateSwatchValues :: "page \<Rightarrow> page result" where
  "updateSwatchValues st =
     forEach
       (\<lambda>(k, varName) s.
          let (raw, s1) = getPropertyValue varName s;
              v = trim raw
          in setTextContent (Some k) v s1)
       (querySwatchValues st) st"

definition tokenMap :: "(string \<times> string) list" where
  "tokenMap =
     [(''btn-radius-value'', ''--button-border-radius''),
      (''btn-font-value'', ''--button-font-family''),
      (''btn-border-width-value'', ''--button-border-width''),
      (''heading-font-value'', ''--heading-sans-serif-font-family''),
      (''body-font-value'', ''--body-sans''),
      (''heading-size-value'', ''--heading-m-font-size''),
      (''tag-radius-value'', ''--tag-border-radius''),
      (''tag-font-value'', ''--tag-font-family''),
      (''tag-weight-value'', ''--tag-font-weight'')]"

definition showToken :: "string \<times> string \<Rightarrow> page \<Rightarrow> page result" where
  "showToken = (\<lambda>(elementId, varName) s.
     (case getElementById elementId s of
        None \<Rightarrow> Inr s
      | Some k \<Rightarrow>
          (let (raw, s1) = getPropertyValue varName s;
               v = trim raw
           in setTextContent (Some k) v s1)))"

definition updateComponentTokenValues :: "page \<Rightarrow> page result" where
  "updateComponentTokenValues st = forEach showToken tokenMap st"

text \<open>The class list that \<open>applyTheme\<close> builds from the current class attribute: the
  filtered pieces, then the two \<open>includes\<close> checks with \<open>unshift\<close> and \<open>push\<close>.\<close>

definition themeClassList :: "string \<Rightarrow> string \<Rightarrow> string \<Rightarrow> string list" where
  "themeClassList brand mode cn =
     (let themeClass = getThemeClass brand mode;
          classList0 = filter (\<lambda>cls. cls = ''Headless-base'' \<or> cls = themeClass)
                         (split_sp cn);
          classList1 = (if ''Headless-base'' \<in> set classList0 then classList0
                        else ''Headless-base'' # classList0);
          classList2 = (if themeClass \<in> set classList1 then classList1
                        else classList1 @ [themeClass])
      in classList2)"

definition applyTheme :: "string \<Rightarrow> string \<Rightarrow> page \<Rightarrow> page result" where
  "applyTheme brand mode st =
     (let classList = themeClassList brand mode (className st);
          st1 = setClassName (join_sp classList) st
      in bind_r (updateClassDisplay st1)
           (\<lambda>st2. bind_r (updateSwatchValues st2) updateComponentTokenValues))"

text \<open>\<open>try { setItem; setItem } catch (error) { console.warn(...) }\<close>: the handler runs
  on the page as the throwing write left it.\<close>

definition saveToStorage :: "string \<Rightarrow> string \<Rightarrow> page \<Rightarrow> page result" where
  "saveToStorage brand mode st =
     (case bind_r (setItem STORAGE_KEY_BRAND brand st) (setItem STORAGE_KEY_MODE mode) of
        Inr st' \<Rightarrow> Inr st'
      | Inl (error, st') \<Rightarrow> Inr (console_warn ''Failed to save theme preferences:'' st'))"

definition loadFromStorage :: "page \<Rightarrow> ((string option \<times> string option) \<times> page) result" where
  "loadFromStorage st =
     (case bind_r (getItem STORAGE_KEY_BRAND st)
             (\<lambda>(b, st1). bind_r (getItem STORAGE_KEY_MODE st1)
                (\<lambda>(m, st2). Inr ((b, m), st2))) of
        Inr r \<Rightarrow> Inr r
      | Inl (error, st') \<Rightarrow>
          Inr ((None, None), console_warn ''Failed to load theme preferences:'' st'))"

text \<open>Reading \<open>value\<close> of a select element that \<open>getElementById\<close> did not find
  throws.\<close>

definition handleBrandChange :: "page \<Rightarrow> page result" where
  "handleBrandChange st =
     (case brandSelect st of
        None \<Rightarrow> Inl (TypeError, st)
      | Some bs \<Rightarrow>
          (case modeSelect st of
             None \<Rightarrow> Inl (TypeError, st)
           | Some ms \<Rightarrow>
               (let brand = selected bs; mode = selected ms
                in bind_r (applyTheme brand mode st) (saveToStorage brand mode))))"

definition handleModeChange :: "page \<Rightarrow> page result" where
  "handleModeChange st =
     (case brandSelect st of
        None \<Rightarrow> Inl (TypeError, st)
      | Some bs \<Rightarrow>
          (case modeSelect st of
             None \<Rightarrow> Inl (TypeError, st)
           | Some ms \<Rightarrow>
               (let brand = selected bs; mode = selected ms
                in bind_r (applyTheme brand mode st) (saveToStorage brand mode))))"

definition init :: "page \<Rightarrow> page result" where
  "init st =
     bind_r (loadFromStorage st) (\<lambda>((saved_brand, saved_mode), st1).
       let brand = or_default saved_brand ''Brand-A'';
           mode = or_default saved_mode ''Lightmode''
       in (case brandSelect st1 of
             None \<Rightarrow> Inl (TypeError, st1)
           | Some bs \<Rightarrow>
               (let st2 = st1\<lparr>brandSelect := Some (set_value brand bs)\<rparr>
                in (case modeSelect st2 of
                      None \<Rightarrow> Inl (TypeError, st2)
                    | Some ms \<Rightarrow>
                        (let st3 = st2\<lparr>modeSelect := Some (set_value mode ms)\<rparr>
                         in bind_r (applyTheme brand mode st3) (\<lambda>st4.
                              let st5 = st4\<lparr>brand_listeners :=
                                            addEventListener HandleBrandChange (brand_listeners st4)\<rparr>;
                                  st6 = st5\<lparr>mode_listeners :=
                                            addEventListener HandleModeChange (mode_listeners st5)\<rparr>
                              in Inr (st6\<lparr>trace := trace st6 @
                                        [InitLog brand mode (getThemeClass brand mode)
                                           (className st6)]\<rparr>)))))))"

section \<open>Reading the trace\<close>

text \<open>A display event is a read of a resolved style under class attribute \<open>c\<close>, or
  a write of a text content; a save event is a storage write (tried or done) or the
  warning of \<open>saveToStorage\<close>.\<close>

fun is_display_event :: "string \<Rightarrow> event \<Rightarrow> bool" where
  "is_display_event c (StyleRead v c') = (c' = c)"
| "is_display_event c (TextWrite k v) = True"
| "is_display_event c (ClassNameWrite x) = False"
| "is_display_event c (SetItem k v b) = False"
| "is_display_event c (GetItem k b) = False"
| "is_display_event c (Warn m) = False"
| "is_display_event c (InitLog b m t h) = False"

fun is_save_event :: "event \<Rightarrow> bool" where
  "is_save_event (SetItem k v b) = True"
| "is_save_event (Warn m) = True"
| "is_save_event (StyleRead v c) = False"
| "is_save_event (TextWrite k v) = False"
| "is_save_event (ClassNameWrite x) = False"
| "is_save_event (GetItem k b) = False"
| "is_save_event (InitLog b m t h) = False"

text \<open>\<open>refreshed s s'\<close>: page \<open>s'\<close> is page \<open>s\<close> after display refreshes only. Every
  field but the elements and the trace is the same, the elements keep their attributes,
  no element has entered the document, and the trace grew by display events under the
  class attribute of \<open>s\<close>.\<close>

definition refreshed :: "page \<Rightarrow> page \<Rightarrow> bool" where
  "refreshed s s' =
     (s' = s\<lparr>elements := elements s', trace := trace s'\<rparr> \<and>
      map ident (elements s') = map ident (elements s) \<and>
      map data_var (elements s') = map data_var (elements s) \<and>
      list_all2 (\<lambda>e e'. attached e' \<longrightarrow> attached e) (elements s) (elements s') \<and>
      take (length (trace s)) (trace s') = trace s \<and>
      list_all (is_display_event (className s)) (drop (length (trace s)) (trace s')))"

text \<open>Whether an operation returned, and the page it left (returning or throwing).\<close>

definition returns :: "page result \<Rightarrow> bool" where
  "returns r = (case r of Inl e \<Rightarrow> False | Inr s \<Rightarrow> True)"

definition page_of :: "page result \<Rightarrow> page" where
  "page_of r = (case r of Inl (e, s) \<Rightarrow> s | Inr s \<Rightarrow> s)"

text \<open>The selection that \<open>init\<close> reports in its closing \<open>console.log\<close>.\<close>

definition logged_selection :: "page \<Rightarrow> (string \<times> string) option" where
  "logged_selection s =
     (case rev (trace s) of
        InitLog b m t h # _ \<Rightarrow> Some (b, m)
      | _ \<Rightarrow> None)"

section \<open>A concrete page\<close>

text \<open>A page with a stale class attribute, the class display, one swatch and one of the
  nine component-token displays; storage is empty and works.\<close>

definition demo_page :: page where
  "demo_page =
     \<lparr>className = ''no-js Headless-base  Brand-B-Darkmode'',
      elements =
        [\<lparr>ident = Some ''current-classes-display'', data_var = None,
            content = [], attached = True\<rparr>,
         \<lparr>ident = None, data_var = Some ''--semantic-fg-default'',
            content = [], attached = True\<rparr>,
         \<lparr>ident = Some ''btn-radius-value'', data_var = None,
            content = [], attached = True\<rparr>],
      classesDisplay = Some 0,
      brandSelect = Some \<lparr>options = [''Brand-A'', ''Brand-B''], selected = ''Brand-A''\<rparr>,
      modeSelect = Some \<lparr>options = [''Lightmode'', ''Darkmode''], selected = ''Lightmode''\<rparr>,
      stylesheet = (\<lambda>cn v. if v = ''--button-border-radius'' then code_units '' 100px ''
                           else code_units ''#334155''),
      storage = Map.empty,
      setItem_throws = (\<lambda>m k v. False),
      getItem_throws = (\<lambda>k. False),
      brand_listeners = [],
      mode_listeners = [],
      trace = []\<rparr>"

text \<open>The concrete page with a stored selection and a storage that refuses writes of
  the mode key only.\<close>

definition mode_refusing_page :: page where
  "mode_refusing_page =
     demo_page\<lparr>storage := [STORAGE_KEY_BRAND \<mapsto> ''Brand-A'', STORAGE_KEY_MODE \<mapsto> ''Lightmode''],
               setItem_throws := (\<lambda>m k v. k = STORAGE_KEY_MODE)\<rparr>"

text \<open>The concrete page of a returning visitor, with a stored selection, and the one
  whose stored selection is two empty strings.\<close>

definition returning_page :: page where
  "returning_page =
     demo_page\<lparr>storage := [STORAGE_KEY_BRAND \<mapsto> ''Brand-B'', STORAGE_KEY_MODE \<mapsto> ''Darkmode'']\<rparr>"

definition blank_selection_page :: page where
  "blank_selection_page =
     demo_page\<lparr>storage := [STORAGE_KEY_BRAND \<mapsto> [], STORAGE_KEY_MODE \<mapsto> []]\<rparr>"

text \<open>A page on which the display for the button font lies inside the display for the
  button radius, which the table names first; the display for the tag weight stands
  alone.\<close>

definition nested_page :: page where
  "nested_page =
     demo_page\<lparr>elements :=
        [\<lparr>ident = Some ''btn-radius-value'', data_var = None,
            content = [Txt (code_units ''old''), Child 1], attached = True\<rparr>,
         \<lparr>ident = Some ''btn-font-value'', data_var = None,
            content = [Txt (code_units ''Satoshi'')], attached = True\<rparr>,
         \<lparr>ident = Some ''tag-weight-value'', data_var = None,
            content = [], attached = True\<rparr>]\<rparr>"

section \<open>Splitting and joining\<close>

lemma split_on_not_Nil: "split_on c s \<noteq> []"
  by (induction s) (auto split: list.splits)

lemma split_on_no_sep: "t \<in> set (split_on c s) \<Longrightarrow> c \<notin> set t"
  by (induction s arbitrary: t) (auto split: list.splits if_splits)

lemma split_on_plain: "c \<notin> set t \<Longrightarrow> split_on c t = [t]"
  by (induction t) auto

lemma split_on_append: "c \<notin> set t \<Longrightarrow> split_on c (t @ c # r) = t # split_on c r"
  by (induction t) auto

lemma split_join:
  "ts \<noteq> [] \<Longrightarrow> \<forall>t\<in>set ts. c \<notin> set t \<Longrightarrow> split_on c (join_with c ts) = ts"
  by (induction c ts rule: join_with.induct) (auto simp: split_on_plain split_on_append)

section \<open>Replacing the children of an element\<close>

lemma replace_all_length: "length (replace_all els k v) = length els"
  by (simp add: replace_all_def Let_def)

lemma replace_all_nth:
  assumes "j < length els"
  shows "ident (replace_all els k v ! j) = ident (els ! j)"
    and "data_var (replace_all els k v ! j) = data_var (els ! j)"
    and "attached (replace_all els k v ! j) \<longrightarrow> attached (els ! j)"
    and "j \<noteq> k \<Longrightarrow> content (replace_all els k v ! j) = content (els ! j)"
    and "j = k \<Longrightarrow> content (replace_all els k v ! j) = (if v = [] then [] else [Txt v])"
  using assms by (cases "j = k"; simp add: replace_all_def Let_def)+

lemma replace_all_ident: "map ident (replace_all els k v) = map ident els"
  by (rule nth_equalityI) (simp_all add: replace_all_length replace_all_nth)

lemma replace_all_data_var: "map data_var (replace_all els k v) = map data_var els"
  by (rule nth_equalityI) (simp_all add: replace_all_length replace_all_nth)

lemma replace_all_attached:
  "list_all2 (\<lambda>e e'. attached e' \<longrightarrow> attached e) els (replace_all els k v)"
  by (rule list_all2_all_nthI) (simp_all add: replace_all_length replace_all_nth)

lemma textContent_single:
  assumes "k < length els" and "content (els ! k) = (if v = [] then [] else [Txt v])"
  shows "textContent els k = v"
  using assms by (subst textContent.simps) simp

lemma textContent_replace_all:
  "k < length els \<Longrightarrow> textContent (replace_all els k v) k = v"
  by (rule textContent_single) (simp_all add: replace_all_length replace_all_nth)

lemma replace_all_attached_iff:
  assumes "m < length els"
  shows "attached (replace_all els k v ! m) \<longleftrightarrow>
           attached (els ! m) \<and> m \<notin> set (descendants els k)"
  using assms by (cases "m = k"; simp add: replace_all_def Let_def)

lemma replace_all_content:
  assumes "m < length els"
  shows "content (replace_all els k v ! m) =
           (if m = k then (if v = [] then [] else [Txt v]) else content (els ! m))"
  using assms by (simp add: replace_all_nth)

lemma descendants_replace_all:
  "set (descendants (replace_all els k v) m) \<subseteq> set (descendants els m)"
proof (induction "length els - m" arbitrary: m rule: less_induct)
  case less
  let ?els' = "replace_all els k v"
  show ?case
  proof (cases "m < length els")
    case False
    then have "descendants ?els' m = []"
      by (subst descendants.simps) (simp add: replace_all_length)
    then show ?thesis by simp
  next
    case True
    have step: "set (descendants ?els' c) \<subseteq> set (descendants els c)" if "m < c" for c
    proof (cases "c < length els")
      case True
      with that \<open>m < length els\<close> have "length els - c < length els - m" by simp
      then show ?thesis by (rule less)
    next
      case False
      then have "descendants ?els' c = []"
        by (subst descendants.simps) (simp add: replace_all_length)
      then show ?thesis by simp
    qed
    show ?thesis
    proof (cases "m = k")
      case True
      with \<open>m < length els\<close> have "descendants ?els' m = []"
        by (subst descendants.simps) (simp add: replace_all_length replace_all_content)
      then show ?thesis by simp
    next
      case False
      have "set (descendants ?els' m) =
          (\<Union>it \<in> set (content (els ! m)).
             set (case it of Txt t \<Rightarrow> []
                  | Child c \<Rightarrow> if m < c then c # descendants ?els' c else []))"
        using True False
        by (subst descendants.simps) (simp add: replace_all_length replace_all_content)
      also have "\<dots> \<subseteq>
          (\<Union>it \<in> set (content (els ! m)).
             set (case it of Txt t \<Rightarrow> []
                  | Child c \<Rightarrow> if m < c then c # descendants els c else []))"
        using step by (intro UN_mono subset_refl) (auto split: item.splits)
      also have "\<dots> = set (descendants els m)"
        using True by (subst (2) descendants.simps) simp
      finally show ?thesis .
    qed
  qed
qed

section \<open>Display refreshes leave everything but texts and trace alone\<close>

lemma attached_same: "list_all2 (\<lambda>e e'. attached e' \<longrightarrow> attached e) els els"
  by (simp add: list_all2_same)

lemma refreshed_refl: "refreshed s s"
  by (simp add: refreshed_def attached_same)

lemma refreshed_fields:
  assumes "refreshed s s'"
  shows "className s' = className s" "storage s' = storage s"
    "stylesheet s' = stylesheet s" "classesDisplay s' = classesDisplay s"
    "brandSelect s' = brandSelect s" "modeSelect s' = modeSelect s"
    "setItem_throws s' = setItem_throws s" "getItem_throws s' = getItem_throws s"
    "brand_listeners s' = brand_listeners s" "mode_listeners s' = mode_listeners s"
    "length (elements s') = length (elements s)"
proof -
  from assms have eq: "s' = s\<lparr>elements := elements s', trace := trace s'\<rparr>"
    by (simp add: refreshed_def)
  show "className s' = className s" by (subst eq) simp
  show "storage s' = storage s" by (subst eq) simp
  show "stylesheet s' = stylesheet s" by (subst eq) simp
  show "classesDisplay s' = classesDisplay s" by (subst eq) simp
  show "brandSelect s' = brandSelect s" by (subst eq) simp
  show "modeSelect s' = modeSelect s" by (subst eq) simp
  show "setItem_throws s' = setItem_throws s" by (subst eq) simp
  show "getItem_throws s' = getItem_throws s" by (subst eq) simp
  show "brand_listeners s' = brand_listeners s" by (subst eq) simp
  show "mode_listeners s' = mode_listeners s" by (subst eq) simp
  from assms have "map ident (elements s') = map ident (elements s)"
    by (simp add: refreshed_def)
  then show "length (elements s') = length (elements s)"
    by (rule map_eq_imp_length_eq)
qed

lemma refreshed_trace:
  assumes "refreshed s s'"
  obtains evs where "trace s' = trace s @ evs" "list_all (is_display_event (className s)) evs"
proof -
  from assms have t: "take (length (trace s)) (trace s') = trace s"
    and d: "list_all (is_display_event (className s)) (drop (length (trace s)) (trace s'))"
    by (simp_all add: refreshed_def)
  have "trace s' = trace s @ drop (length (trace s)) (trace s')"
    by (metis t append_take_drop_id)
  with d that show thesis by blast
qed

lemma refreshedI:
  assumes "s' = s\<lparr>elements := els, trace := trace s @ evs\<rparr>"
    and "map ident els = map ident (elements s)"
    and "map data_var els = map data_var (elements s)"
    and "list_all2 (\<lambda>e e'. attached e' \<longrightarrow> attached e) (elements s) els"
    and "list_all (is_display_event (className s)) evs"
  shows "refreshed s s'"
  using assms by (simp add: refreshed_def)

lemma refreshed_attached:
  assumes "refreshed s s'" and "attached (elements s' ! k)" and "k < length (elements s)"
  shows "attached (elements s ! k)"
proof -
  from assms(1) have "list_all2 (\<lambda>e e'. attached e' \<longrightarrow> attached e) (elements s) (elements s')"
    by (simp add: refreshed_def)
  with assms(2,3) show ?thesis by (simp add: list_all2_conv_all_nth)
qed

lemma refreshed_trans:
  assumes a: "refreshed s s'" and b: "refreshed s' s''"
  shows "refreshed s s''"
proof -
  obtain e1 where e1: "trace s' = trace s @ e1" "list_all (is_display_event (className s)) e1"
    using a by (rule refreshed_trace)
  obtain e2 where e2: "trace s'' = trace s' @ e2" "list_all (is_display_event (className s')) e2"
    using b by (rule refreshed_trace)
  have cn: "className s' = className s" using a by (rule refreshed_fields)
  have eq1: "s' = s\<lparr>elements := elements s', trace := trace s'\<rparr>"
    using a by (simp add: refreshed_def)
  have eq2: "s'' = s'\<lparr>elements := elements s'', trace := trace s''\<rparr>"
    using b by (simp add: refreshed_def)
  have "s'' = s\<lparr>elements := elements s'', trace := trace s @ (e1 @ e2)\<rparr>"
    by (subst eq2, subst eq1) (simp add: e1 e2)
  moreover have "map ident (elements s'') = map ident (elements s)"
    using a b by (simp add: refreshed_def)
  moreover have "map data_var (elements s'') = map data_var (elements s)"
    using a b by (simp add: refreshed_def)
  moreover have "list_all2 (\<lambda>e e'. attached e' \<longrightarrow> attached e) (elements s) (elements s'')"
  proof -
    have "list_all2 (\<lambda>e e'. attached e' \<longrightarrow> attached e) (elements s) (elements s')"
      and "list_all2 (\<lambda>e e'. attached e' \<longrightarrow> attached e) (elements s') (elements s'')"
      using a b by (simp_all add: refreshed_def)
    then show ?thesis
      by (rule list_all2_trans [rotated]) simp
  qed
  moreover have "list_all (is_display_event (className s)) (e1 @ e2)"
    using e1 e2 cn by simp
  ultimately show ?thesis by (rule refreshedI)
qed

lemma setTextContent_refreshed:
  "\<exists>s'. setTextContent (Some k) v s = Inr s' \<and> refreshed s s'"
proof -
  let ?els = "replace_all (elements s) k v"
  have "refreshed s (s\<lparr>elements := ?els, trace := trace s @ [TextWrite k v]\<rparr>)"
    by (rule refreshedI [where els = ?els and evs = "[TextWrite k v]"])
       (simp_all add: replace_all_ident replace_all_data_var replace_all_attached)
  then show ?thesis by (simp add: setTextContent_def)
qed

lemma getPropertyValue_refreshed:
  "\<exists>s1. getPropertyValue x s = (stylesheet s (className s) x, s1) \<and> refreshed s s1"
  by (simp add: getPropertyValue_def refreshed_def attached_same)

lemma show_value_refreshed:
  "\<exists>s'. (case getPropertyValue x s of (raw, s1) \<Rightarrow> setTextContent (Some k) (trim raw) s1)
         = Inr s' \<and> refreshed s s'"
proof -
  obtain s1 where s1: "getPropertyValue x s = (stylesheet s (className s) x, s1)"
    and r1: "refreshed s s1"
    using getPropertyValue_refreshed by blast
  obtain s' where "setTextContent (Some k) (trim (stylesheet s (className s) x)) s1 = Inr s'"
    and "refreshed s1 s'"
    using setTextContent_refreshed by blast
  with s1 r1 show ?thesis by (auto intro: refreshed_trans)
qed

lemma forEach_refreshed:
  assumes "\<And>x s. x \<in> set xs \<Longrightarrow> \<exists>s'. f x s = Inr s' \<and> refreshed s s'"
  shows "\<exists>s'. forEach f xs st = Inr s' \<and> refreshed st s'"
  using assms
proof (induction xs arbitrary: st)
  case Nil
  show ?case by (simp add: refreshed_refl)
next
  case (Cons x xs)
  obtain s1 where s1: "f x st = Inr s1" "refreshed st s1"
    using Cons.prems [of x st] by auto
  obtain s2 where s2: "forEach f xs s1 = Inr s2" "refreshed s1 s2"
    using Cons.IH [of s1] Cons.prems by auto
  from s1 s2 show ?case by (auto simp: bind_r_def intro: refreshed_trans)
qed

lemma updateClassDisplay_refreshed:
  "\<exists>s'. updateClassDisplay s = Inr s' \<and> refreshed s s'"
  using setTextContent_refreshed
  by (auto simp: updateClassDisplay_def refreshed_refl split: option.splits)

lemma updateSwatchValues_refreshed:
  "\<exists>s'. updateSwatchValues s = Inr s' \<and> refreshed s s'"
  unfolding updateSwatchValues_def
  by (rule forEach_refreshed) (auto simp: show_value_refreshed)

lemma showToken_refreshed:
  "\<exists>s'. showToken x s = Inr s' \<and> refreshed s s'"
  by (cases x) (auto simp: showToken_def refreshed_refl show_value_refreshed split: option.splits)

lemma updateComponentTokenValues_refreshed:
  "\<exists>s'. updateComponentTokenValues s = Inr s' \<and> refreshed s s'"
  unfolding updateComponentTokenValues_def
  by (rule forEach_refreshed) (rule showToken_refreshed)

lemma applyTheme_refreshed:
  "\<exists>s'. applyTheme brand mode st = Inr s' \<and>
        refreshed (setClassName (join_sp (themeClassList brand mode (className st))) st) s'"
proof -
  let ?s0 = "setClassName (join_sp (themeClassList brand mode (className st))) st"
  obtain s1 where s1: "updateClassDisplay ?s0 = Inr s1" "refreshed ?s0 s1"
    using updateClassDisplay_refreshed by blast
  obtain s2 where s2: "updateSwatchValues s1 = Inr s2" "refreshed s1 s2"
    using updateSwatchValues_refreshed by blast
  obtain s3 where s3: "updateComponentTokenValues s2 = Inr s3" "refreshed s2 s3"
    using updateComponentTokenValues_refreshed by blast
  have "refreshed ?s0 s3" using s1 s2 s3 by (blast intro: refreshed_trans)
  then show ?thesis using s1 s2 s3 by (simp add: applyTheme_def Let_def bind_r_def)
qed

section \<open>The class list\<close>

lemma count_list_filter:
  "count_list (filter P xs) x = (if P x then count_list xs x else 0)"
  by (induction xs) auto

lemma count_list_pos_iff: "0 < count_list xs x \<longleftrightarrow> x \<in> set xs"
  by (induction xs) auto

lemma themeClassList_set:
  "set (themeClassList brand mode cn) = {''Headless-base'', getThemeClass brand mode}"
  by (auto simp: themeClassList_def Let_def)

lemma themeClassList_count_base:
  "count_list (themeClassList brand mode cn) ''Headless-base'' =
     max 1 (count_list (split_sp cn) ''Headless-base'')"
proof -
  let ?t = "getThemeClass brand mode"
  let ?l0 = "filter (\<lambda>cls. cls = ''Headless-base'' \<or> cls = ?t) (split_sp cn)"
  have c0: "count_list ?l0 ''Headless-base'' = count_list (split_sp cn) ''Headless-base''"
    by (simp add: count_list_filter)
  have m0: "''Headless-base'' \<in> set ?l0 \<longleftrightarrow> 0 < count_list (split_sp cn) ''Headless-base''"
    by (simp add: count_list_pos_iff)
  show ?thesis
  proof (cases "?t = ''Headless-base''")
    case True
    then show ?thesis
      using c0 m0 unfolding themeClassList_def Let_def
      by (auto simp: max_def)
  next
    case False
    then show ?thesis
      using c0 m0 unfolding themeClassList_def Let_def
      by (auto simp: max_def)
  qed
qed

lemma themeClassList_count_theme:
  "count_list (themeClassList brand mode cn) (getThemeClass brand mode) =
     max 1 (count_list (split_sp cn) (getThemeClass brand mode))"
proof -
  let ?t = "getThemeClass brand mode"
  let ?l0 = "filter (\<lambda>cls. cls = ''Headless-base'' \<or> cls = ?t) (split_sp cn)"
  have c0: "count_list ?l0 ?t = count_list (split_sp cn) ?t"
    by (simp add: count_list_filter)
  have m0: "?t \<in> set ?l0 \<longleftrightarrow> 0 < count_list (split_sp cn) ?t"
    by (simp add: count_list_pos_iff)
  have b0: "''Headless-base'' \<in> set ?l0 \<longleftrightarrow> 0 < count_list (split_sp cn) ''Headless-base''"
    by (simp add: count_list_pos_iff)
  show ?thesis
  proof (cases "?t = ''Headless-base''")
    case True
    then show ?thesis
      using themeClassList_count_base [of brand mode cn] by simp
  next
    case False
    then show ?thesis
      using c0 m0 unfolding themeClassList_def Let_def
      by (auto simp: max_def)
  qed
qed

lemma getThemeClass_no_space:
  "CHR '' '' \<notin> set brand \<Longrightarrow> CHR '' '' \<notin> set mode \<Longrightarrow>
   CHR '' '' \<notin> set (getThemeClass brand mode)"
  by (simp add: getThemeClass_def)

lemma split_join_themeClassList:
  assumes "CHR '' '' \<notin> set (getThemeClass brand mode)"
  shows "split_sp (join_sp (themeClassList brand mode cn)) = themeClassList brand mode cn"
proof -
  have "themeClassList brand mode cn \<noteq> []"
    using themeClassList_set [of brand mode cn] by auto
  moreover have "\<forall>t\<in>set (themeClassList brand mode cn). CHR '' '' \<notin> set t"
    using assms by (auto simp: themeClassList_set)
  ultimately show ?thesis
    unfolding split_sp_def join_sp_def by (rule split_join)
qed

lemma applyTheme_returns: "returns (applyTheme brand mode st)"
  using applyTheme_refreshed [of brand mode st] by (auto simp: returns_def)

lemma applyTheme_className:
  "className (page_of (applyTheme brand mode st)) =
     join_sp (themeClassList brand mode (className st))"
proof -
  obtain s' where s': "applyTheme brand mode st = Inr s'"
    and r: "refreshed (setClassName (join_sp (themeClassList brand mode (className st))) st) s'"
    using applyTheme_refreshed by blast
  from r have "className s' =
      className (setClassName (join_sp (themeClassList brand mode (className st))) st)"
    by (rule refreshed_fields)
  with s' show ?thesis by (simp add: page_of_def setClassName_def)
qed

section \<open>The class tokens of the element\<close>

lemma split_where_plain: "\<forall>c \<in> set t. \<not> P c \<Longrightarrow> split_where P t = [t]"
  by (induction t) auto

lemma split_where_append:
  "\<forall>c \<in> set t. \<not> P c \<Longrightarrow> P x \<Longrightarrow> split_where P (t @ x # r) = t # split_where P r"
  by (induction t) auto

lemma split_where_join:
  "ts \<noteq> [] \<Longrightarrow> \<forall>t \<in> set ts. \<forall>c \<in> set t. \<not> P c \<Longrightarrow> P x \<Longrightarrow>
   split_where P (join_with x ts) = ts"
  by (induction x ts rule: join_with.induct) (auto simp: split_where_plain split_where_append)

lemma getThemeClass_no_whitespace:
  assumes "\<forall>c \<in> set brand \<union> set mode. \<not> is_ascii_whitespace c"
  shows "\<forall>c \<in> set (getThemeClass brand mode). \<not> is_ascii_whitespace c"
  using assms by (auto simp: getThemeClass_def is_ascii_whitespace_def)

lemma class_tokens_themeClassList:
  assumes "\<forall>c \<in> set (getThemeClass brand mode). \<not> is_ascii_whitespace c"
  shows "class_tokens (join_sp (themeClassList brand mode cn)) = themeClassList brand mode cn"
proof -
  let ?ts = "themeClassList brand mode cn"
  have base: "\<forall>c \<in> set ''Headless-base''. \<not> is_ascii_whitespace c"
    by (simp add: is_ascii_whitespace_def)
  have ne: "?ts \<noteq> []"
    using themeClassList_set [of brand mode cn] by auto
  have clean: "\<forall>t \<in> set ?ts. \<forall>c \<in> set t. \<not> is_ascii_whitespace c"
    using assms base unfolding themeClassList_set by blast
  have sp: "is_ascii_whitespace (CHR '' '')"
    by (simp add: is_ascii_whitespace_def)
  have "split_where is_ascii_whitespace (join_sp ?ts) = ?ts"
    unfolding join_sp_def using ne clean sp by (rule split_where_join)
  moreover have "getThemeClass brand mode \<noteq> []"
    by (simp add: getThemeClass_def)
  then have "\<forall>t \<in> set ?ts. t \<noteq> []"
    unfolding themeClassList_set by auto
  ultimately show ?thesis
    by (simp add: class_tokens_def)
qed

text \<open>
  Claim C1, as amended. For every brand and mode that contain no ASCII white space
  character (tab, line feed, form feed, carriage return, space) and for every prior page
  (so every prior class attribute), \<open>applyTheme\<close> returns, and the class tokens of the
  root element afterwards are exactly \<open>Headless-base\<close> and \<open>brand + "-" + mode\<close>:
  every other token is gone and both are present. This holds for the tokens as the
  element reads them, cut at ASCII white space, and for the pieces the script itself
  cuts at spaces.
\<close>

theorem applyTheme_class_set:
  assumes "\<forall>c \<in> set brand \<union> set mode. \<not> is_ascii_whitespace c"
  shows "returns (applyTheme brand mode st) \<and>
         set (class_tokens (className (page_of (applyTheme brand mode st)))) =
           {''Headless-base'', getThemeClass brand mode} \<and>
         set (split_sp (className (page_of (applyTheme brand mode st)))) =
           {''Headless-base'', getThemeClass brand mode}"
proof -
  have clean: "\<forall>c \<in> set (getThemeClass brand mode). \<not> is_ascii_whitespace c"
    using assms by (rule getThemeClass_no_whitespace)
  then have "CHR '' '' \<notin> set (getThemeClass brand mode)"
    by (auto simp: is_ascii_whitespace_def)
  then have "split_sp (className (page_of (applyTheme brand mode st))) =
      themeClassList brand mode (className st)"
    by (simp add: applyTheme_className split_join_themeClassList)
  moreover have "class_tokens (className (page_of (applyTheme brand mode st))) =
      themeClassList brand mode (className st)"
    using clean by (simp add: applyTheme_className class_tokens_themeClassList)
  ultimately show ?thesis
    by (simp add: applyTheme_returns themeClassList_set)
qed

text \<open>The theorem at \<open>Brand-A\<close>, \<open>Lightmode\<close> on the concrete page.\<close>

theorem applyTheme_class_set_witness:
  "list_all (\<lambda>c. \<not> is_ascii_whitespace c) (''Brand-A'' @ ''Lightmode'') \<and>
   returns (applyTheme ''Brand-A'' ''Lightmode'' demo_page) \<and>
   set (class_tokens (className (page_of (applyTheme ''Brand-A'' ''Lightmode'' demo_page)))) =
     {''Headless-base'', ''Brand-A-Lightmode''} \<and>
   set (split_sp (className (page_of (applyTheme ''Brand-A'' ''Lightmode'' demo_page)))) =
     {''Headless-base'', ''Brand-A-Lightmode''}"
proof -
  have h: "\<forall>c \<in> set ''Brand-A'' \<union> set ''Lightmode''. \<not> is_ascii_whitespace c"
    by (simp add: is_ascii_whitespace_def)
  have g: "getThemeClass ''Brand-A'' ''Lightmode'' = ''Brand-A-Lightmode''"
    by (simp add: getThemeClass_def)
  have l: "list_all (\<lambda>c. \<not> is_ascii_whitespace c) (''Brand-A'' @ ''Lightmode'')"
    by (simp add: is_ascii_whitespace_def)
  from applyTheme_class_set [OF h, of demo_page] l show ?thesis
    unfolding g by (intro conjI) (elim conjE, assumption)+
qed

text \<open>
  Claim C1 as stated, for every brand: with the brand \<open>Brand A\<close> the theme class holds a
  space, no piece of the old attribute equals it, and the pushed class reads back as the
  two tokens \<open>Brand\<close> and \<open>A-Lightmode\<close>, for the script and for the element alike.
  With a tab in place of the space the element reads the same two tokens.
\<close>

theorem applyTheme_class_set_counterexample:
  "className (page_of (applyTheme ''Brand A'' ''Lightmode'' demo_page)) =
     ''Headless-base Brand A-Lightmode'' \<and>
   split_sp (className (page_of (applyTheme ''Brand A'' ''Lightmode'' demo_page))) =
     [''Headless-base'', ''Brand'', ''A-Lightmode''] \<and>
   set (split_sp (className (page_of (applyTheme ''Brand A'' ''Lightmode'' demo_page)))) \<noteq>
     {''Headless-base'', getThemeClass ''Brand A'' ''Lightmode''} \<and>
   class_tokens (className (page_of (applyTheme ''Brand A'' ''Lightmode'' demo_page))) =
     [''Headless-base'', ''Brand'', ''A-Lightmode''] \<and>
   set (class_tokens (className (page_of (applyTheme ''Brand A'' ''Lightmode'' demo_page)))) \<noteq>
     {''Headless-base'', getThemeClass ''Brand A'' ''Lightmode''} \<and>
   class_tokens (className (page_of
       (applyTheme (''Brand'' @ [CHR 0x09] @ ''A'') ''Lightmode'' demo_page))) =
     [''Headless-base'', ''Brand'', ''A-Lightmode''] \<and>
   set (class_tokens (className (page_of
       (applyTheme (''Brand'' @ [CHR 0x09] @ ''A'') ''Lightmode'' demo_page)))) \<noteq>
     {''Headless-base'', getThemeClass (''Brand'' @ [CHR 0x09] @ ''A'') ''Lightmode''}"
proof -
  let ?after = "className (page_of (applyTheme ''Brand A'' ''Lightmode'' demo_page))"
  let ?tab = "''Brand'' @ [CHR 0x09] @ ''A''"
  let ?after_tab = "className (page_of (applyTheme ?tab ''Lightmode'' demo_page))"
  have cn: "?after = ''Headless-base Brand A-Lightmode''"
    by (simp add: applyTheme_className demo_page_def themeClassList_def getThemeClass_def
        split_sp_def join_sp_def)
  have toks: "split_sp ?after = [''Headless-base'', ''Brand'', ''A-Lightmode'']"
    unfolding cn by (simp add: split_sp_def)
  have dom: "class_tokens ?after = [''Headless-base'', ''Brand'', ''A-Lightmode'']"
    unfolding cn by (simp add: class_tokens_def is_ascii_whitespace_def)
  have cn_tab: "?after_tab = ''Headless-base Brand'' @ [CHR 0x09] @ ''A-Lightmode''"
    by (simp add: applyTheme_className demo_page_def themeClassList_def getThemeClass_def
        split_sp_def join_sp_def)
  have dom_tab: "class_tokens ?after_tab = [''Headless-base'', ''Brand'', ''A-Lightmode'']"
    unfolding cn_tab by (simp add: class_tokens_def is_ascii_whitespace_def)
  have out: "''Brand'' \<notin> {''Headless-base'', getThemeClass ''Brand A'' ''Lightmode''}"
    by (simp add: getThemeClass_def)
  have out_tab: "''Brand'' \<notin> {''Headless-base'', getThemeClass ?tab ''Lightmode''}"
    by (simp add: getThemeClass_def)
  have ne: "set (split_sp ?after) \<noteq> {''Headless-base'', getThemeClass ''Brand A'' ''Lightmode''}"
  proof
    assume "set (split_sp ?after) = {''Headless-base'', getThemeClass ''Brand A'' ''Lightmode''}"
    moreover have "''Brand'' \<in> set (split_sp ?after)"
      unfolding toks by simp
    ultimately have "''Brand'' \<in> {''Headless-base'', getThemeClass ''Brand A'' ''Lightmode''}"
      by (rule subst)
    with out show False ..
  qed
  have ne_dom: "set (class_tokens ?after) \<noteq>
      {''Headless-base'', getThemeClass ''Brand A'' ''Lightmode''}"
  proof
    assume "set (class_tokens ?after) =
      {''Headless-base'', getThemeClass ''Brand A'' ''Lightmode''}"
    moreover have "''Brand'' \<in> set (class_tokens ?after)"
      unfolding dom by simp
    ultimately have "''Brand'' \<in> {''Headless-base'', getThemeClass ''Brand A'' ''Lightmode''}"
      by (rule subst)
    with out show False ..
  qed
  have ne_tab: "set (class_tokens ?after_tab) \<noteq>
      {''Headless-base'', getThemeClass ?tab ''Lightmode''}"
  proof
    assume "set (class_tokens ?after_tab) =
      {''Headless-base'', getThemeClass ?tab ''Lightmode''}"
    moreover have "''Brand'' \<in> set (class_tokens ?after_tab)"
      unfolding dom_tab by simp
    ultimately have "''Brand'' \<in> {''Headless-base'', getThemeClass ?tab ''Lightmode''}"
      by (rule subst)
    with out_tab show False ..
  qed
  from cn toks ne dom ne_dom dom_tab ne_tab show ?thesis by (intro conjI)
qed

text \<open>
  Claim C2, as amended. For brand and mode without a space character, the class attribute
  after \<open>applyTheme\<close> holds the base class as often as the prior attribute held it, and
  once when the prior attribute did not hold it; the same for the brand-mode class. So
  each occurs exactly once whenever the prior attribute held it at most once; duplicates
  that were there before the call stay.
\<close>

theorem applyTheme_class_count:
  assumes "CHR '' '' \<notin> set brand" and "CHR '' '' \<notin> set mode"
  shows "count_list (split_sp (className (page_of (applyTheme brand mode st)))) ''Headless-base'' =
           max 1 (count_list (split_sp (className st)) ''Headless-base'') \<and>
         count_list (split_sp (className (page_of (applyTheme brand mode st))))
             (getThemeClass brand mode) =
           max 1 (count_list (split_sp (className st)) (getThemeClass brand mode))"
proof -
  have "CHR '' '' \<notin> set (getThemeClass brand mode)"
    using assms by (rule getThemeClass_no_space)
  then have "split_sp (className (page_of (applyTheme brand mode st))) =
      themeClassList brand mode (className st)"
    by (simp add: applyTheme_className split_join_themeClassList)
  then show ?thesis
    by (simp only: themeClassList_count_base themeClassList_count_theme)
qed

text \<open>The theorem on the concrete page, whose attribute holds the base class once and
  the new brand-mode class not at all.\<close>

theorem applyTheme_class_count_witness:
  "CHR '' '' \<notin> set ''Brand-A'' \<and> CHR '' '' \<notin> set ''Lightmode'' \<and>
   count_list (split_sp (className demo_page)) ''Headless-base'' = 1 \<and>
   count_list (split_sp (className demo_page)) ''Brand-A-Lightmode'' = 0 \<and>
   count_list (split_sp (className (page_of (applyTheme ''Brand-A'' ''Lightmode'' demo_page))))
     ''Headless-base'' = 1 \<and>
   count_list (split_sp (className (page_of (applyTheme ''Brand-A'' ''Lightmode'' demo_page))))
     ''Brand-A-Lightmode'' = 1"
  using applyTheme_class_count [of "''Brand-A''" "''Lightmode''" demo_page]
  by (simp add: getThemeClass_def demo_page_def split_sp_def)

text \<open>
  Claim C2 as stated, for prior attributes with duplicate tokens: from
  \<open>Headless-base Headless-base\<close> the filter keeps both pieces, and the base class
  occurs twice afterwards. And for every brand: with the brand \<open>Brand A\<close> the
  brand-mode class is no token of the attribute at all.
\<close>

theorem applyTheme_class_count_counterexample:
  "className (page_of (applyTheme ''Brand-A'' ''Lightmode''
       (demo_page\<lparr>className := ''Headless-base Headless-base''\<rparr>))) =
     ''Headless-base Headless-base Brand-A-Lightmode'' \<and>
   count_list (split_sp (className (page_of (applyTheme ''Brand-A'' ''Lightmode''
       (demo_page\<lparr>className := ''Headless-base Headless-base''\<rparr>))))) ''Headless-base'' = 2 \<and>
   count_list (split_sp (className (page_of (applyTheme ''Brand A'' ''Lightmode'' demo_page))))
     (getThemeClass ''Brand A'' ''Lightmode'') = 0"
proof -
  have cn: "className (page_of (applyTheme ''Brand-A'' ''Lightmode''
       (demo_page\<lparr>className := ''Headless-base Headless-base''\<rparr>))) =
     ''Headless-base Headless-base Brand-A-Lightmode''"
    by (simp add: applyTheme_className themeClassList_def getThemeClass_def
        split_sp_def join_sp_def)
  have two: "count_list (split_sp ''Headless-base Headless-base Brand-A-Lightmode'')
      ''Headless-base'' = 2"
    by (simp add: split_sp_def)
  have cn': "className (page_of (applyTheme ''Brand A'' ''Lightmode'' demo_page)) =
     ''Headless-base Brand A-Lightmode''"
    by (simp add: applyTheme_className demo_page_def themeClassList_def getThemeClass_def
        split_sp_def join_sp_def)
  have none: "count_list (split_sp ''Headless-base Brand A-Lightmode'')
      (getThemeClass ''Brand A'' ''Lightmode'') = 0"
    by (simp add: split_sp_def getThemeClass_def)
  from cn two cn' none show ?thesis by (simp only:)
qed

text \<open>
  Claim C9. When the computed theme class is the base-class literal, \<open>applyTheme\<close>
  leaves a class attribute whose token set is the one-element set holding
  \<open>Headless-base\<close>; when the prior attribute held that class at most once, the
  attribute is exactly \<open>Headless-base\<close>.
\<close>

theorem applyTheme_coinciding_class:
  assumes "getThemeClass brand mode = ''Headless-base''"
  shows "returns (applyTheme brand mode st) \<and>
         set (split_sp (className (page_of (applyTheme brand mode st)))) = {''Headless-base''} \<and>
         card (set (split_sp (className (page_of (applyTheme brand mode st))))) = 1 \<and>
         (count_list (split_sp (className st)) ''Headless-base'' \<le> 1 \<longrightarrow>
            className (page_of (applyTheme brand mode st)) = ''Headless-base'')"
proof -
  have ns: "CHR '' '' \<notin> set (getThemeClass brand mode)"
    by (simp add: assms)
  then have sp: "split_sp (className (page_of (applyTheme brand mode st))) =
      themeClassList brand mode (className st)"
    by (simp add: applyTheme_className split_join_themeClassList)
  have st: "set (themeClassList brand mode (className st)) = {''Headless-base''}"
    by (simp add: themeClassList_set assms)
  have one: "className (page_of (applyTheme brand mode st)) = ''Headless-base''"
    if le: "count_list (split_sp (className st)) ''Headless-base'' \<le> 1"
  proof -
    have "count_list (themeClassList brand mode (className st)) ''Headless-base'' = 1"
      using le by (simp add: themeClassList_count_base max_def)
    moreover have "xs = [x]" if "set xs = {x}" "count_list xs x = 1" for xs :: "string list" and x
      using that
    proof (cases xs)
      case Nil
      with that show ?thesis by simp
    next
      case (Cons y ys)
      with that have y: "y = x" by auto
      with Cons that have "count_list ys x = 0" by simp
      then have "x \<notin> set ys" by (simp add: count_list_0_iff)
      moreover from Cons that have "set ys \<subseteq> {x}" by auto
      ultimately have "ys = []" by (cases ys) auto
      with Cons y show ?thesis by simp
    qed
    ultimately have "themeClassList brand mode (className st) = [''Headless-base'']"
      using st by blast
    then show ?thesis by (simp add: applyTheme_className join_sp_def)
  qed
  show ?thesis using sp st one by (simp add: applyTheme_returns)
qed

text \<open>The theorem at brand \<open>Headless\<close>, mode \<open>base\<close> on the concrete page.\<close>

theorem applyTheme_coinciding_class_witness:
  "getThemeClass ''Headless'' ''base'' = ''Headless-base'' \<and>
   count_list (split_sp (className demo_page)) ''Headless-base'' \<le> 1 \<and>
   returns (applyTheme ''Headless'' ''base'' demo_page) \<and>
   set (split_sp (className (page_of (applyTheme ''Headless'' ''base'' demo_page)))) =
     {''Headless-base''} \<and>
   className (page_of (applyTheme ''Headless'' ''base'' demo_page)) = ''Headless-base''"
  using applyTheme_coinciding_class [of "''Headless''" "''base''" demo_page]
  by (simp add: getThemeClass_def demo_page_def split_sp_def)

text \<open>
  Claim C7. \<open>getThemeClass\<close> is the brand, one hyphen, and the mode, with nothing
  changed: the result starts with the brand, has the hyphen right after it and the mode
  as the rest. It is defined on all strings, with no error result, and
  \<open>getThemeClass "Brand-A" "Lightmode"\<close> is \<open>Brand-A-Lightmode\<close>.
\<close>

theorem getThemeClass_concat:
  "getThemeClass brand mode = brand @ ''-'' @ mode \<and>
   length (getThemeClass brand mode) = length brand + 1 + length mode \<and>
   take (length brand) (getThemeClass brand mode) = brand \<and>
   getThemeClass brand mode ! length brand = CHR ''-'' \<and>
   drop (length brand + 1) (getThemeClass brand mode) = mode \<and>
   getThemeClass ''Brand-A'' ''Lightmode'' = ''Brand-A-Lightmode''"
  by (simp add: getThemeClass_def nth_append)

section \<open>Saving and loading\<close>

lemma storage_keys_differ: "STORAGE_KEY_BRAND \<noteq> STORAGE_KEY_MODE"
  by (simp add: STORAGE_KEY_BRAND_def STORAGE_KEY_MODE_def)

lemma saveToStorage_cases:
  "saveToStorage brand mode st = Inr
     (if setItem_throws st (storage st) STORAGE_KEY_BRAND brand
      then st\<lparr>trace := trace st @
             [SetItem STORAGE_KEY_BRAND brand False, Warn ''Failed to save theme preferences:'']\<rparr>
      else if setItem_throws st ((storage st)(STORAGE_KEY_BRAND \<mapsto> brand)) STORAGE_KEY_MODE mode
      then st\<lparr>storage := (storage st)(STORAGE_KEY_BRAND \<mapsto> brand),
              trace := trace st @
                [SetItem STORAGE_KEY_BRAND brand True, SetItem STORAGE_KEY_MODE mode False,
                 Warn ''Failed to save theme preferences:'']\<rparr>
      else st\<lparr>storage := (storage st)(STORAGE_KEY_BRAND \<mapsto> brand, STORAGE_KEY_MODE \<mapsto> mode),
              trace := trace st @
                [SetItem STORAGE_KEY_BRAND brand True, SetItem STORAGE_KEY_MODE mode True]\<rparr>)"
  by (simp add: saveToStorage_def setItem_def bind_r_def console_warn_def)

lemma saveToStorage_returns: "returns (saveToStorage brand mode st)"
  by (simp add: saveToStorage_cases returns_def)

lemma saveToStorage_frame:
  "page_of (saveToStorage brand mode st) =
     st\<lparr>storage := storage (page_of (saveToStorage brand mode st)),
        trace := trace (page_of (saveToStorage brand mode st))\<rparr>"
  by (simp add: saveToStorage_cases page_of_def)

lemma saveToStorage_trace:
  "\<exists>save. trace (page_of (saveToStorage brand mode st)) = trace st @ save \<and>
          save \<noteq> [] \<and> list_all is_save_event save"
  by (simp add: saveToStorage_cases page_of_def)

lemma loadFromStorage_cases:
  "loadFromStorage st = Inr
     (if getItem_throws st STORAGE_KEY_BRAND
      then ((None, None),
            st\<lparr>trace := trace st @
              [GetItem STORAGE_KEY_BRAND False, Warn ''Failed to load theme preferences:'']\<rparr>)
      else if getItem_throws st STORAGE_KEY_MODE
      then ((None, None),
            st\<lparr>trace := trace st @
              [GetItem STORAGE_KEY_BRAND True, GetItem STORAGE_KEY_MODE False,
               Warn ''Failed to load theme preferences:'']\<rparr>)
      else ((storage st STORAGE_KEY_BRAND, storage st STORAGE_KEY_MODE),
            st\<lparr>trace := trace st @
              [GetItem STORAGE_KEY_BRAND True, GetItem STORAGE_KEY_MODE True]\<rparr>))"
  by (simp add: loadFromStorage_def getItem_def bind_r_def console_warn_def)

text \<open>
  Claim C4. For every brand, mode and page, \<open>saveToStorage\<close> returns: nothing is
  thrown past it. It changes nothing but the storage and the trace, so the class
  attribute and the elements are as \<open>applyTheme\<close> left them. When the write of the brand
  key or the write of the mode key throws, the last thing it does is log the warning.
  Run after \<open>applyTheme\<close>, as the change handlers do, the pair returns and the class
  attribute and elements are those of \<open>applyTheme\<close> alone.
\<close>

theorem saveToStorage_contains_failure:
  "returns (saveToStorage brand mode st) \<and>
   page_of (saveToStorage brand mode st) =
     st\<lparr>storage := storage (page_of (saveToStorage brand mode st)),
        trace := trace (page_of (saveToStorage brand mode st))\<rparr> \<and>
   (setItem_throws st (storage st) STORAGE_KEY_BRAND brand \<or>
    setItem_throws st ((storage st)(STORAGE_KEY_BRAND \<mapsto> brand)) STORAGE_KEY_MODE mode \<longrightarrow>
      last (trace (page_of (saveToStorage brand mode st))) =
        Warn ''Failed to save theme preferences:'') \<and>
   returns (bind_r (applyTheme brand mode st) (saveToStorage brand mode)) \<and>
   className (page_of (bind_r (applyTheme brand mode st) (saveToStorage brand mode))) =
     className (page_of (applyTheme brand mode st)) \<and>
   elements (page_of (bind_r (applyTheme brand mode st) (saveToStorage brand mode))) =
     elements (page_of (applyTheme brand mode st))"
proof -
  obtain s1 where s1: "applyTheme brand mode st = Inr s1"
    using applyTheme_refreshed by blast
  have seq: "bind_r (applyTheme brand mode st) (saveToStorage brand mode) =
      saveToStorage brand mode s1"
    by (simp add: s1 bind_r_def)
  have p1: "page_of (applyTheme brand mode st) = s1"
    by (simp add: s1 page_of_def)
  have "className (page_of (saveToStorage brand mode s1)) = className s1"
    by (subst saveToStorage_frame) simp
  moreover have "elements (page_of (saveToStorage brand mode s1)) = elements s1"
    by (subst saveToStorage_frame) simp
  moreover have "setItem_throws st (storage st) STORAGE_KEY_BRAND brand \<or>
    setItem_throws st ((storage st)(STORAGE_KEY_BRAND \<mapsto> brand)) STORAGE_KEY_MODE mode \<longrightarrow>
      last (trace (page_of (saveToStorage brand mode st))) =
        Warn ''Failed to save theme preferences:''"
    by (simp add: saveToStorage_cases page_of_def)
  ultimately show ?thesis
    using saveToStorage_frame [of brand mode st]
    by (simp add: seq p1 saveToStorage_returns)
qed

text \<open>The theorem on the concrete page with a storage that refuses every write.\<close>

theorem saveToStorage_contains_failure_witness:
  "setItem_throws (demo_page\<lparr>setItem_throws := \<lambda>m k v. True\<rparr>)
     (storage (demo_page\<lparr>setItem_throws := \<lambda>m k v. True\<rparr>)) STORAGE_KEY_BRAND ''Brand-B'' \<and>
   returns (saveToStorage ''Brand-B'' ''Darkmode'' (demo_page\<lparr>setItem_throws := \<lambda>m k v. True\<rparr>)) \<and>
   last (trace (page_of (saveToStorage ''Brand-B'' ''Darkmode''
       (demo_page\<lparr>setItem_throws := \<lambda>m k v. True\<rparr>)))) =
     Warn ''Failed to save theme preferences:'' \<and>
   returns (bind_r (applyTheme ''Brand-B'' ''Darkmode'' (demo_page\<lparr>setItem_throws := \<lambda>m k v. True\<rparr>))
      (saveToStorage ''Brand-B'' ''Darkmode''))"
  using saveToStorage_contains_failure
    [of "''Brand-B''" "''Darkmode''" "demo_page\<lparr>setItem_throws := \<lambda>m k v. True\<rparr>"]
  by simp

text \<open>
  Claim C8. When the write of the brand key succeeds and the write of the mode key then
  throws, \<open>saveToStorage\<close> returns with the first write in place: the store holds the new
  brand and, under the mode key, what it held before.
\<close>

theorem saveToStorage_not_atomic:
  assumes "\<not> setItem_throws st (storage st) STORAGE_KEY_BRAND brand"
    and "setItem_throws st ((storage st)(STORAGE_KEY_BRAND \<mapsto> brand)) STORAGE_KEY_MODE mode"
  shows "returns (saveToStorage brand mode st) \<and>
         storage (page_of (saveToStorage brand mode st)) =
           (storage st)(STORAGE_KEY_BRAND \<mapsto> brand) \<and>
         storage (page_of (saveToStorage brand mode st)) STORAGE_KEY_BRAND = Some brand \<and>
         storage (page_of (saveToStorage brand mode st)) STORAGE_KEY_MODE =
           storage st STORAGE_KEY_MODE"
  using assms storage_keys_differ
  by (simp add: saveToStorage_cases returns_def page_of_def)

text \<open>The theorem on the concrete page that stores \<open>Brand-A\<close>, \<open>Lightmode\<close> and
  refuses writes of the mode key: saving \<open>Brand-B\<close>, \<open>Darkmode\<close> leaves
  \<open>Brand-B\<close> with \<open>Lightmode\<close>.\<close>

theorem saveToStorage_not_atomic_witness:
  "\<not> setItem_throws mode_refusing_page (storage mode_refusing_page) STORAGE_KEY_BRAND ''Brand-B'' \<and>
   setItem_throws mode_refusing_page
     ((storage mode_refusing_page)(STORAGE_KEY_BRAND \<mapsto> ''Brand-B'')) STORAGE_KEY_MODE ''Darkmode'' \<and>
   returns (saveToStorage ''Brand-B'' ''Darkmode'' mode_refusing_page) \<and>
   storage (page_of (saveToStorage ''Brand-B'' ''Darkmode'' mode_refusing_page)) STORAGE_KEY_BRAND =
     Some ''Brand-B'' \<and>
   storage (page_of (saveToStorage ''Brand-B'' ''Darkmode'' mode_refusing_page)) STORAGE_KEY_MODE =
     Some ''Lightmode''"
proof -
  have a: "\<not> setItem_throws mode_refusing_page (storage mode_refusing_page)
      STORAGE_KEY_BRAND ''Brand-B''"
    using storage_keys_differ by (simp add: mode_refusing_page_def)
  have b: "setItem_throws mode_refusing_page
     ((storage mode_refusing_page)(STORAGE_KEY_BRAND \<mapsto> ''Brand-B'')) STORAGE_KEY_MODE ''Darkmode''"
    by (simp add: mode_refusing_page_def)
  have c: "storage mode_refusing_page STORAGE_KEY_MODE = Some ''Lightmode''"
    by (simp add: mode_refusing_page_def)
  show ?thesis
    using saveToStorage_not_atomic [OF a b] a b c storage_keys_differ [symmetric] by simp
qed

section \<open>The handlers and init\<close>

lemma applyTheme_trace:
  "\<exists>disp. trace (page_of (applyTheme brand mode st)) =
            trace st @ ClassNameWrite (className (page_of (applyTheme brand mode st))) # disp \<and>
          list_all (is_display_event (className (page_of (applyTheme brand mode st)))) disp"
proof -
  let ?c = "join_sp (themeClassList brand mode (className st))"
  obtain s' where s': "applyTheme brand mode st = Inr s'"
    and r: "refreshed (setClassName ?c st) s'"
    using applyTheme_refreshed by blast
  obtain evs where evs: "trace s' = trace (setClassName ?c st) @ evs"
    "list_all (is_display_event (className (setClassName ?c st))) evs"
    using r by (rule refreshed_trace)
  have "className s' = ?c"
    using refreshed_fields(1) [OF r] by (simp add: setClassName_def)
  with evs s' show ?thesis
    by (simp add: page_of_def setClassName_def)
qed

lemma applyTheme_keeps:
  "storage (page_of (applyTheme brand mode st)) = storage st"
  "setItem_throws (page_of (applyTheme brand mode st)) = setItem_throws st"
  "brandSelect (page_of (applyTheme brand mode st)) = brandSelect st"
  "modeSelect (page_of (applyTheme brand mode st)) = modeSelect st"
  "brand_listeners (page_of (applyTheme brand mode st)) = brand_listeners st"
  "mode_listeners (page_of (applyTheme brand mode st)) = mode_listeners st"
proof -
  let ?c = "join_sp (themeClassList brand mode (className st))"
  obtain s' where s': "applyTheme brand mode st = Inr s'"
    and r: "refreshed (setClassName ?c st) s'"
    using applyTheme_refreshed by blast
  have p: "page_of (applyTheme brand mode st) = s'" by (simp add: s' page_of_def)
  show "storage (page_of (applyTheme brand mode st)) = storage st"
    using refreshed_fields(2) [OF r] by (simp add: p setClassName_def)
  show "setItem_throws (page_of (applyTheme brand mode st)) = setItem_throws st"
    using refreshed_fields(7) [OF r] by (simp add: p setClassName_def)
  show "brandSelect (page_of (applyTheme brand mode st)) = brandSelect st"
    using refreshed_fields(5) [OF r] by (simp add: p setClassName_def)
  show "modeSelect (page_of (applyTheme brand mode st)) = modeSelect st"
    using refreshed_fields(6) [OF r] by (simp add: p setClassName_def)
  show "brand_listeners (page_of (applyTheme brand mode st)) = brand_listeners st"
    using refreshed_fields(9) [OF r] by (simp add: p setClassName_def)
  show "mode_listeners (page_of (applyTheme brand mode st)) = mode_listeners st"
    using refreshed_fields(10) [OF r] by (simp add: p setClassName_def)
qed

lemma bind_applyTheme:
  "bind_r (applyTheme brand mode st) f = f (page_of (applyTheme brand mode st))"
proof -
  obtain s' where "applyTheme brand mode st = Inr s'"
    using applyTheme_refreshed by blast
  then show ?thesis by (simp add: bind_r_def page_of_def)
qed

lemma handleModeChange_same: "handleModeChange st = handleBrandChange st"
  by (simp add: handleModeChange_def handleBrandChange_def)

text \<open>
  Claim C3. With both select elements present, a change handler returns, and what it adds
  to the trace is, in this order: the one write of the class attribute (the rewritten
  list, which is also the final class attribute), then display events only, each style
  read among them made under the rewritten class attribute, then save events only, at
  least one. So no style is read before the class attribute is rewritten and no storage
  write happens before the last display refresh. Both handlers are the same function of
  the page.
\<close>

theorem theme_change_order:
  assumes "brandSelect st = Some bs" and "modeSelect st = Some ms"
  shows "\<exists>disp save.
           returns (handleBrandChange st) \<and>
           className (page_of (handleBrandChange st)) =
             join_sp (themeClassList (selected bs) (selected ms) (className st)) \<and>
           trace (page_of (handleBrandChange st)) =
             trace st @ ClassNameWrite (className (page_of (handleBrandChange st))) # disp @ save \<and>
           list_all (is_display_event (className (page_of (handleBrandChange st)))) disp \<and>
           list_all is_save_event save \<and> save \<noteq> [] \<and>
           handleModeChange st = handleBrandChange st"
proof -
  let ?b = "selected bs" and ?m = "selected ms"
  let ?s1 = "page_of (applyTheme ?b ?m st)"
  have h: "handleBrandChange st = saveToStorage ?b ?m ?s1"
    using assms by (simp add: handleBrandChange_def Let_def bind_applyTheme)
  obtain disp where disp: "trace ?s1 = trace st @ ClassNameWrite (className ?s1) # disp"
    "list_all (is_display_event (className ?s1)) disp"
    using applyTheme_trace by blast
  obtain save where save: "trace (page_of (saveToStorage ?b ?m ?s1)) = trace ?s1 @ save"
    "save \<noteq> []" "list_all is_save_event save"
    using saveToStorage_trace by blast
  have cn: "className (page_of (saveToStorage ?b ?m ?s1)) = className ?s1"
    by (subst saveToStorage_frame) simp
  have "trace (page_of (handleBrandChange st)) =
      trace st @ ClassNameWrite (className (page_of (handleBrandChange st))) # disp @ save"
    by (simp add: h cn save disp)
  moreover have "list_all (is_display_event (className (page_of (handleBrandChange st)))) disp"
    using disp by (simp add: h cn)
  moreover have "className (page_of (handleBrandChange st)) =
      join_sp (themeClassList ?b ?m (className st))"
    by (simp add: h cn applyTheme_className)
  moreover have "returns (handleBrandChange st)"
    by (simp add: h saveToStorage_returns)
  ultimately show ?thesis
    using save handleModeChange_same by blast
qed


text \<open>The theorem on the concrete page, whose selects hold \<open>Brand-A\<close> and
  \<open>Lightmode\<close>.\<close>

theorem theme_change_order_witness:
  "brandSelect demo_page = Some \<lparr>options = [''Brand-A'', ''Brand-B''], selected = ''Brand-A''\<rparr> \<and>
   modeSelect demo_page = Some \<lparr>options = [''Lightmode'', ''Darkmode''], selected = ''Lightmode''\<rparr> \<and>
   (\<exists>disp save.
      returns (handleBrandChange demo_page) \<and>
      className (page_of (handleBrandChange demo_page)) = ''Headless-base Brand-A-Lightmode'' \<and>
      trace (page_of (handleBrandChange demo_page)) =
        ClassNameWrite ''Headless-base Brand-A-Lightmode'' # disp @ save \<and>
      list_all (is_display_event ''Headless-base Brand-A-Lightmode'') disp \<and>
      list_all is_save_event save \<and> save \<noteq> [])"
proof -
  have a: "brandSelect demo_page =
      Some \<lparr>options = [''Brand-A'', ''Brand-B''], selected = ''Brand-A''\<rparr>"
    by (simp add: demo_page_def)
  have b: "modeSelect demo_page =
      Some \<lparr>options = [''Lightmode'', ''Darkmode''], selected = ''Lightmode''\<rparr>"
    by (simp add: demo_page_def)
  have c: "join_sp (themeClassList ''Brand-A'' ''Lightmode'' (className demo_page)) =
      ''Headless-base Brand-A-Lightmode''"
    by (simp add: demo_page_def themeClassList_def getThemeClass_def split_sp_def join_sp_def)
  have t: "trace demo_page = []"
    by (simp add: demo_page_def)
  obtain disp save where r: "returns (handleBrandChange demo_page)"
    and cn: "className (page_of (handleBrandChange demo_page)) =
      join_sp (themeClassList ''Brand-A'' ''Lightmode'' (className demo_page))"
    and tr: "trace (page_of (handleBrandChange demo_page)) =
      trace demo_page @ ClassNameWrite (className (page_of (handleBrandChange demo_page))) #
        disp @ save"
    and d: "list_all (is_display_event (className (page_of (handleBrandChange demo_page)))) disp"
    and s: "list_all is_save_event save" "save \<noteq> []"
    using theme_change_order [OF a b] by auto
  have "trace (page_of (handleBrandChange demo_page)) =
      ClassNameWrite ''Headless-base Brand-A-Lightmode'' # disp @ save"
    using tr by (simp add: cn c t)
  moreover have "list_all (is_display_event ''Headless-base Brand-A-Lightmode'') disp"
    using d by (simp add: cn c)
  ultimately show ?thesis
    using a b r s cn c by auto
qed

section \<open>Looking elements up\<close>

lemma first_match_find:
  "(case filter P xs of [] \<Rightarrow> None | k # r \<Rightarrow> Some k) = find P xs"
  by (induction xs) auto

lemma getElementById_Some_iff:
  "getElementById i s = Some k \<longleftrightarrow>
     k < length (elements s) \<and> attached (elements s ! k) \<and> ident (elements s ! k) = Some i \<and>
     (\<forall>j < k. \<not> (attached (elements s ! j) \<and> ident (elements s ! j) = Some i))"
proof -
  let ?P = "\<lambda>k. attached (elements s ! k) \<and> ident (elements s ! k) = Some i"
  let ?n = "length (elements s)"
  have "getElementById i s = find ?P [0 ..< ?n]"
    unfolding getElementById_def by (rule first_match_find)
  also have "\<dots> = Some k \<longleftrightarrow> (k < ?n \<and> ?P k \<and> (\<forall>j < k. \<not> ?P j))"
  proof
    assume "find ?P [0 ..< ?n] = Some k"
    then obtain m where m: "m < length [0 ..< ?n]" "?P ([0 ..< ?n] ! m)" "k = [0 ..< ?n] ! m"
      "\<forall>j < m. \<not> ?P ([0 ..< ?n] ! j)"
      unfolding find_Some_iff by blast
    from m(1) have mn: "m < ?n" by simp
    with m(3) have km: "k = m" by simp
    have "\<not> ?P j" if "j < k" for j
    proof -
      from that km mn have "j < m" "[0 ..< ?n] ! j = j" by simp_all
      with m(4) show ?thesis by metis
    qed
    with m(2) mn km show "k < ?n \<and> ?P k \<and> (\<forall>j < k. \<not> ?P j)" by simp
  next
    assume r: "k < ?n \<and> ?P k \<and> (\<forall>j < k. \<not> ?P j)"
    then have "k < length [0 ..< ?n]" "?P ([0 ..< ?n] ! k)" "k = [0 ..< ?n] ! k"
      by simp_all
    moreover have "\<forall>j < k. \<not> ?P ([0 ..< ?n] ! j)"
      using r by simp
    ultimately show "find ?P [0 ..< ?n] = Some k"
      unfolding find_Some_iff by blast
  qed
  finally show ?thesis by simp
qed

lemma getElementById_None_iff:
  "getElementById i s = None \<longleftrightarrow>
     (\<forall>k < length (elements s). \<not> (attached (elements s ! k) \<and> ident (elements s ! k) = Some i))"
proof -
  let ?P = "\<lambda>k. attached (elements s ! k) \<and> ident (elements s ! k) = Some i"
  have "getElementById i s = find ?P [0 ..< length (elements s)]"
    unfolding getElementById_def by (rule first_match_find)
  then show ?thesis
    by (auto simp: find_None_iff)
qed

lemma refreshed_ident:
  assumes "refreshed s s'" and "k < length (elements s)"
  shows "ident (elements s' ! k) = ident (elements s ! k)"
proof -
  from assms(1) have m: "map ident (elements s') = map ident (elements s)"
    by (simp add: refreshed_def)
  then have "length (elements s') = length (elements s)"
    by (rule map_eq_imp_length_eq)
  with assms(2) have "ident (elements s' ! k) = map ident (elements s') ! k"
    by simp
  also have "\<dots> = ident (elements s ! k)"
    using assms(2) by (simp add: m)
  finally show ?thesis .
qed

lemma getElementById_None_refreshed:
  assumes r: "refreshed s s'" and n: "getElementById i s = None"
  shows "getElementById i s' = None"
proof -
  have len: "length (elements s') = length (elements s)"
    using r by (rule refreshed_fields)
  have "\<not> (attached (elements s' ! k) \<and> ident (elements s' ! k) = Some i)"
    if k: "k < length (elements s)" for k
  proof
    assume a: "attached (elements s' ! k) \<and> ident (elements s' ! k) = Some i"
    then have "attached (elements s ! k)"
      using refreshed_attached [OF r _ k] by simp
    moreover have "ident (elements s ! k) = Some i"
      using a refreshed_ident [OF r k] by simp
    ultimately show False
      using n k unfolding getElementById_None_iff by blast
  qed
  then show ?thesis
    unfolding getElementById_None_iff len by blast
qed

lemma getElementById_Some_refreshed:
  assumes r: "refreshed s s'" and g: "getElementById i s = Some k"
    and a: "attached (elements s' ! k)"
  shows "getElementById i s' = Some k"
proof -
  have len: "length (elements s') = length (elements s)"
    using r by (rule refreshed_fields)
  from g have k: "k < length (elements s)" and id: "ident (elements s ! k) = Some i"
    and first: "\<forall>j < k. \<not> (attached (elements s ! j) \<and> ident (elements s ! j) = Some i)"
    unfolding getElementById_Some_iff by simp_all
  have "\<not> (attached (elements s' ! j) \<and> ident (elements s' ! j) = Some i)" if j: "j < k" for j
  proof
    assume b: "attached (elements s' ! j) \<and> ident (elements s' ! j) = Some i"
    from j k have jl: "j < length (elements s)" by simp
    from b have "attached (elements s ! j)"
      using refreshed_attached [OF r _ jl] by simp
    moreover have "ident (elements s ! j) = Some i"
      using b refreshed_ident [OF r jl] by simp
    ultimately show False using first j by blast
  qed
  moreover have "ident (elements s' ! k) = Some i"
    using id refreshed_ident [OF r k] by simp
  ultimately show ?thesis
    unfolding getElementById_Some_iff using a k len by simp
qed

lemma showToken_absent:
  "getElementById i s = None \<Longrightarrow> showToken (i, v) s = Inr s"
  by (simp add: showToken_def)

lemma showToken_present:
  assumes "getElementById i s = Some k"
  shows "showToken (i, v) s =
     Inr (s\<lparr>elements := replace_all (elements s) k (trim (stylesheet s (className s) v)),
            trace := trace s @ [StyleRead v (className s),
                                TextWrite k (trim (stylesheet s (className s) v))]\<rparr>)"
  using assms by (simp add: showToken_def getPropertyValue_def setTextContent_def Let_def)

lemma forEach_showToken:
  assumes "distinct (map fst xs)"
  shows "\<exists>s' evs. forEach showToken xs s = Inr s' \<and> refreshed s s' \<and>
     trace s' = trace s @ evs \<and>
     (\<forall>v c. StyleRead v c \<in> set evs \<longrightarrow>
        (\<exists>i. (i, v) \<in> set xs \<and> getElementById i s \<noteq> None)) \<and>
     (\<forall>k t. TextWrite k t \<in> set evs \<longrightarrow>
        k < length (elements s) \<and> attached (elements s ! k) \<and>
        (\<exists>i v. (i, v) \<in> set xs \<and> ident (elements s ! k) = Some i \<and>
               t = trim (stylesheet s (className s) v)) \<and>
        content (elements s' ! k) = (if t = [] then [] else [Txt t])) \<and>
     (\<forall>i v k. (i, v) \<in> set xs \<and> getElementById i s = Some k \<and>
        attached (elements s' ! k) \<longrightarrow>
        TextWrite k (trim (stylesheet s (className s) v)) \<in> set evs) \<and>
     (\<forall>k < length (elements s). (\<forall>t. TextWrite k t \<notin> set evs) \<longrightarrow>
        content (elements s' ! k) = content (elements s ! k)) \<and>
     (\<forall>k < length (elements s).
        attached (elements s ! k) \<and>
        (\<forall>m t. TextWrite m t \<in> set evs \<longrightarrow> k \<notin> set (descendants (elements s) m)) \<longrightarrow>
        attached (elements s' ! k))"
  using assms
proof (induction xs arbitrary: s)
  case Nil
  have "forEach showToken [] s = Inr s \<and> refreshed s s \<and>
     trace s = trace s @ [] \<and>
     (\<forall>v c. StyleRead v c \<in> set [] \<longrightarrow>
        (\<exists>i. (i, v) \<in> set [] \<and> getElementById i s \<noteq> None)) \<and>
     (\<forall>k t. TextWrite k t \<in> set [] \<longrightarrow>
        k < length (elements s) \<and> attached (elements s ! k) \<and>
        (\<exists>i v. (i, v) \<in> set [] \<and> ident (elements s ! k) = Some i \<and>
               t = trim (stylesheet s (className s) v)) \<and>
        content (elements s ! k) = (if t = [] then [] else [Txt t])) \<and>
     (\<forall>i v k. (i, v) \<in> set [] \<and> getElementById i s = Some k \<and>
        attached (elements s ! k) \<longrightarrow>
        TextWrite k (trim (stylesheet s (className s) v)) \<in> set []) \<and>
     (\<forall>k < length (elements s). (\<forall>t. TextWrite k t \<notin> set []) \<longrightarrow>
        content (elements s ! k) = content (elements s ! k)) \<and>
     (\<forall>k < length (elements s).
        attached (elements s ! k) \<and>
        (\<forall>m t. TextWrite m t \<in> set [] \<longrightarrow> k \<notin> set (descendants (elements s) m)) \<longrightarrow>
        attached (elements s ! k))"
    by (simp add: refreshed_refl)
  then show ?case by (intro exI)
next
  case (Cons x xs)
  obtain i v where x: "x = (i, v)" by (cases x)
  from Cons.prems x have fresh: "\<And>w. (i, w) \<notin> set xs" and dist: "distinct (map fst xs)"
    by (auto simp: image_iff)
  show ?case
  proof (cases "getElementById i s")
    case None
    then have step: "showToken x s = Inr s"
      unfolding x by (rule showToken_absent)
    from Cons.IH [OF dist, of s] obtain s' evs where ih:
      "forEach showToken xs s = Inr s' \<and> refreshed s s' \<and>
     trace s' = trace s @ evs \<and>
     (\<forall>v c. StyleRead v c \<in> set evs \<longrightarrow>
        (\<exists>i. (i, v) \<in> set xs \<and> getElementById i s \<noteq> None)) \<and>
     (\<forall>k t. TextWrite k t \<in> set evs \<longrightarrow>
        k < length (elements s) \<and> attached (elements s ! k) \<and>
        (\<exists>i v. (i, v) \<in> set xs \<and> ident (elements s ! k) = Some i \<and>
               t = trim (stylesheet s (className s) v)) \<and>
        content (elements s' ! k) = (if t = [] then [] else [Txt t])) \<and>
     (\<forall>i v k. (i, v) \<in> set xs \<and> getElementById i s = Some k \<and>
        attached (elements s' ! k) \<longrightarrow>
        TextWrite k (trim (stylesheet s (className s) v)) \<in> set evs) \<and>
     (\<forall>k < length (elements s). (\<forall>t. TextWrite k t \<notin> set evs) \<longrightarrow>
        content (elements s' ! k) = content (elements s ! k)) \<and>
     (\<forall>k < length (elements s).
        attached (elements s ! k) \<and>
        (\<forall>m t. TextWrite m t \<in> set evs \<longrightarrow> k \<notin> set (descendants (elements s) m)) \<longrightarrow>
        attached (elements s' ! k))"
      by (elim exE) (erule that)
    note run = ih [THEN conjunct1]
    and r0 = ih [THEN conjunct2, THEN conjunct1]
    and tr = ih [THEN conjunct2, THEN conjunct2, THEN conjunct1]
    and reads = ih [THEN conjunct2, THEN conjunct2, THEN conjunct2, THEN conjunct1]
    and writes = ih [THEN conjunct2, THEN conjunct2, THEN conjunct2, THEN conjunct2, THEN conjunct1]
    and found = ih [THEN conjunct2, THEN conjunct2, THEN conjunct2, THEN conjunct2, THEN conjunct2, THEN conjunct1]
    and rest = ih [THEN conjunct2, THEN conjunct2, THEN conjunct2, THEN conjunct2, THEN conjunct2, THEN conjunct2, THEN conjunct1]
    and stay = ih [THEN conjunct2, THEN conjunct2, THEN conjunct2, THEN conjunct2, THEN conjunct2, THEN conjunct2, THEN conjunct2]
    have run': "forEach showToken (x # xs) s = Inr s'"
      by (simp add: step run bind_r_def)
    have reads': "(\<forall>v c. StyleRead v c \<in> set evs \<longrightarrow>
        (\<exists>i. (i, v) \<in> set (x # xs) \<and> getElementById i s \<noteq> None))"
    proof (intro allI impI)
      fix w c assume "StyleRead w c \<in> set evs"
      with reads obtain j where "(j, w) \<in> set xs" "getElementById j s \<noteq> None"
        by blast
      then have "(j, w) \<in> set (x # xs) \<and> getElementById j s \<noteq> None" by simp
      then show "\<exists>i. (i, w) \<in> set (x # xs) \<and> getElementById i s \<noteq> None" ..
    qed
    have writes': "(\<forall>k t. TextWrite k t \<in> set evs \<longrightarrow>
        k < length (elements s) \<and> attached (elements s ! k) \<and>
        (\<exists>i v. (i, v) \<in> set (x # xs) \<and> ident (elements s ! k) = Some i \<and>
               t = trim (stylesheet s (className s) v)) \<and>
        content (elements s' ! k) = (if t = [] then [] else [Txt t]))"
    proof (intro allI impI)
      fix k t assume "TextWrite k t \<in> set evs"
      with writes have w: "k < length (elements s)" "attached (elements s ! k)"
        "\<exists>i v. (i, v) \<in> set xs \<and> ident (elements s ! k) = Some i \<and>
               t = trim (stylesheet s (className s) v)"
        "content (elements s' ! k) = (if t = [] then [] else [Txt t])"
        by blast+
      from w(3) obtain j u where "(j, u) \<in> set xs" "ident (elements s ! k) = Some j"
        "t = trim (stylesheet s (className s) u)"
        by blast
      then have "\<exists>i v. (i, v) \<in> set (x # xs) \<and> ident (elements s ! k) = Some i \<and>
               t = trim (stylesheet s (className s) v)"
        by (intro exI [of _ j] exI [of _ u]) simp
      with w show "k < length (elements s) \<and> attached (elements s ! k) \<and>
        (\<exists>i v. (i, v) \<in> set (x # xs) \<and> ident (elements s ! k) = Some i \<and>
               t = trim (stylesheet s (className s) v)) \<and>
        content (elements s' ! k) = (if t = [] then [] else [Txt t])"
        by simp
    qed
    have found': "(\<forall>i v k. (i, v) \<in> set (x # xs) \<and> getElementById i s = Some k \<and>
        attached (elements s' ! k) \<longrightarrow>
        TextWrite k (trim (stylesheet s (className s) v)) \<in> set evs)"
    proof (intro allI impI)
      fix j w k
      assume a: "(j, w) \<in> set (x # xs) \<and> getElementById j s = Some k \<and>
        attached (elements s' ! k)"
      have "(j, w) \<noteq> x"
        using a None x by auto
      with a have "(j, w) \<in> set xs" by simp
      with a found show "TextWrite k (trim (stylesheet s (className s) w)) \<in> set evs"
        by blast
    qed
    have "forEach showToken (x # xs) s = Inr s' \<and> refreshed s s' \<and>
     trace s' = trace s @ evs \<and>
     (\<forall>v c. StyleRead v c \<in> set evs \<longrightarrow>
        (\<exists>i. (i, v) \<in> set (x # xs) \<and> getElementById i s \<noteq> None)) \<and>
     (\<forall>k t. TextWrite k t \<in> set evs \<longrightarrow>
        k < length (elements s) \<and> attached (elements s ! k) \<and>
        (\<exists>i v. (i, v) \<in> set (x # xs) \<and> ident (elements s ! k) = Some i \<and>
               t = trim (stylesheet s (className s) v)) \<and>
        content (elements s' ! k) = (if t = [] then [] else [Txt t])) \<and>
     (\<forall>i v k. (i, v) \<in> set (x # xs) \<and> getElementById i s = Some k \<and>
        attached (elements s' ! k) \<longrightarrow>
        TextWrite k (trim (stylesheet s (className s) v)) \<in> set evs) \<and>
     (\<forall>k < length (elements s). (\<forall>t. TextWrite k t \<notin> set evs) \<longrightarrow>
        content (elements s' ! k) = content (elements s ! k)) \<and>
     (\<forall>k < length (elements s).
        attached (elements s ! k) \<and>
        (\<forall>m t. TextWrite m t \<in> set evs \<longrightarrow> k \<notin> set (descendants (elements s) m)) \<longrightarrow>
        attached (elements s' ! k))"
      using run' r0 tr reads' writes' found' rest stay by (intro conjI)
    then show ?thesis by (intro exI)
  next
    case (Some k)
    let ?cn = "className s"
    let ?t = "trim (stylesheet s ?cn v)"
    let ?s1 = "s\<lparr>elements := replace_all (elements s) k ?t,
                 trace := trace s @ [StyleRead v ?cn, TextWrite k ?t]\<rparr>"
    have step: "showToken x s = Inr ?s1"
      unfolding x using Some by (rule showToken_present)
    have r1: "refreshed s ?s1"
      using showToken_refreshed [of x s] step by simp
    from Some have k: "k < length (elements s)" and ka: "attached (elements s ! k)"
      and kid: "ident (elements s ! k) = Some i"
      unfolding getElementById_Some_iff by simp_all
    from Cons.IH [OF dist, of ?s1] obtain s' evr where ih:
      "forEach showToken xs ?s1 = Inr s' \<and> refreshed ?s1 s' \<and>
     trace s' = trace ?s1 @ evr \<and>
     (\<forall>v c. StyleRead v c \<in> set evr \<longrightarrow>
        (\<exists>i. (i, v) \<in> set xs \<and> getElementById i ?s1 \<noteq> None)) \<and>
     (\<forall>k t. TextWrite k t \<in> set evr \<longrightarrow>
        k < length (elements ?s1) \<and> attached (elements ?s1 ! k) \<and>
        (\<exists>i v. (i, v) \<in> set xs \<and> ident (elements ?s1 ! k) = Some i \<and>
               t = trim (stylesheet ?s1 (className ?s1) v)) \<and>
        content (elements s' ! k) = (if t = [] then [] else [Txt t])) \<and>
     (\<forall>i v k. (i, v) \<in> set xs \<and> getElementById i ?s1 = Some k \<and>
        attached (elements s' ! k) \<longrightarrow>
        TextWrite k (trim (stylesheet ?s1 (className ?s1) v)) \<in> set evr) \<and>
     (\<forall>k < length (elements ?s1). (\<forall>t. TextWrite k t \<notin> set evr) \<longrightarrow>
        content (elements s' ! k) = content (elements ?s1 ! k)) \<and>
     (\<forall>k < length (elements ?s1).
        attached (elements ?s1 ! k) \<and>
        (\<forall>m t. TextWrite m t \<in> set evr \<longrightarrow> k \<notin> set (descendants (elements ?s1) m)) \<longrightarrow>
        attached (elements s' ! k))"
      by (elim exE) (erule that)
    note run = ih [THEN conjunct1]
    and r0 = ih [THEN conjunct2, THEN conjunct1]
    and tr = ih [THEN conjunct2, THEN conjunct2, THEN conjunct1]
    and reads = ih [THEN conjunct2, THEN conjunct2, THEN conjunct2, THEN conjunct1]
    and writes = ih [THEN conjunct2, THEN conjunct2, THEN conjunct2, THEN conjunct2, THEN conjunct1]
    and found = ih [THEN conjunct2, THEN conjunct2, THEN conjunct2, THEN conjunct2, THEN conjunct2, THEN conjunct1]
    and rest = ih [THEN conjunct2, THEN conjunct2, THEN conjunct2, THEN conjunct2, THEN conjunct2, THEN conjunct2, THEN conjunct1]
    and stay = ih [THEN conjunct2, THEN conjunct2, THEN conjunct2, THEN conjunct2, THEN conjunct2, THEN conjunct2, THEN conjunct2]
    let ?evs = "[StyleRead v ?cn, TextWrite k ?t] @ evr"
    have run': "forEach showToken (x # xs) s = Inr s'"
      by (simp add: step run bind_r_def)
    have r: "refreshed s s'"
      using r1 r0 by (rule refreshed_trans)
    have tr': "trace s' = trace s @ ?evs"
      by (simp add: tr)
    have k_once: "TextWrite k t \<notin> set evr" for t
    proof
      assume "TextWrite k t \<in> set evr"
      with writes obtain j w where "(j, w) \<in> set xs" "ident (elements ?s1 ! k) = Some j"
        by blast
      moreover have "ident (elements ?s1 ! k) = Some i"
        using kid refreshed_ident [OF r1 k] by simp
      ultimately show False using fresh by simp
    qed
    have reads': "(\<forall>v c. StyleRead v c \<in> set ?evs \<longrightarrow>
        (\<exists>i. (i, v) \<in> set (x # xs) \<and> getElementById i s \<noteq> None))"
    proof (intro allI impI)
      fix w c assume "StyleRead w c \<in> set ?evs"
      then consider "w = v" | "StyleRead w c \<in> set evr" by auto
      then show "\<exists>j. (j, w) \<in> set (x # xs) \<and> getElementById j s \<noteq> None"
      proof cases
        case 1
        then have "(i, w) \<in> set (x # xs) \<and> getElementById i s \<noteq> None"
          using x Some by simp
        then show ?thesis ..
      next
        case 2
        with reads obtain j where j: "(j, w) \<in> set xs" "getElementById j ?s1 \<noteq> None"
          by blast
        have "getElementById j s \<noteq> None"
        proof
          assume "getElementById j s = None"
          with r1 have "getElementById j ?s1 = None"
            by (rule getElementById_None_refreshed)
          with j(2) show False ..
        qed
        with j(1) have "(j, w) \<in> set (x # xs) \<and> getElementById j s \<noteq> None" by simp
        then show ?thesis ..
      qed
    qed
    have writes': "(\<forall>k t. TextWrite k t \<in> set ?evs \<longrightarrow>
        k < length (elements s) \<and> attached (elements s ! k) \<and>
        (\<exists>i v. (i, v) \<in> set (x # xs) \<and> ident (elements s ! k) = Some i \<and>
               t = trim (stylesheet s (className s) v)) \<and>
        content (elements s' ! k) = (if t = [] then [] else [Txt t]))"
    proof (intro allI impI)
      fix m t assume "TextWrite m t \<in> set ?evs"
      then consider "m = k" "t = ?t" | "TextWrite m t \<in> set evr" by auto
      then show "m < length (elements s) \<and> attached (elements s ! m) \<and>
        (\<exists>j w. (j, w) \<in> set (x # xs) \<and> ident (elements s ! m) = Some j \<and>
               t = trim (stylesheet s ?cn w)) \<and>
        content (elements s' ! m) = (if t = [] then [] else [Txt t])"
      proof cases
        case 1
        have "content (elements s' ! k) = content (elements ?s1 ! k)"
          using rest k k_once by (simp add: replace_all_length)
        also have "\<dots> = (if ?t = [] then [] else [Txt ?t])"
          using k by (simp add: replace_all_nth)
        finally have c: "content (elements s' ! k) = (if ?t = [] then [] else [Txt ?t])" .
        have "\<exists>j w. (j, w) \<in> set (x # xs) \<and> ident (elements s ! k) = Some j \<and>
               ?t = trim (stylesheet s ?cn w)"
          by (intro exI [of _ i] exI [of _ v]) (simp add: x kid)
        with 1 k ka c show ?thesis by simp
      next
        case 2
        with writes have w: "m < length (elements ?s1)" "attached (elements ?s1 ! m)"
          "\<exists>i v. (i, v) \<in> set xs \<and> ident (elements ?s1 ! m) = Some i \<and>
               t = trim (stylesheet ?s1 (className ?s1) v)"
          "content (elements s' ! m) = (if t = [] then [] else [Txt t])"
          by blast+
        from w(1) have m: "m < length (elements s)" by (simp add: replace_all_length)
        have ma: "attached (elements s ! m)"
          using r1 w(2) m by (rule refreshed_attached)
        from w(3) obtain j u where ju: "(j, u) \<in> set xs" "ident (elements ?s1 ! m) = Some j"
          "t = trim (stylesheet ?s1 (className ?s1) u)"
          by blast
        have "ident (elements s ! m) = Some j"
          using ju(2) refreshed_ident [OF r1 m] by simp
        moreover have "t = trim (stylesheet s ?cn u)"
          using ju(3) by simp
        ultimately have "\<exists>j w. (j, w) \<in> set (x # xs) \<and> ident (elements s ! m) = Some j \<and>
               t = trim (stylesheet s ?cn w)"
          using ju(1) by (intro exI [of _ j] exI [of _ u]) simp
        with m ma w(4) show ?thesis by simp
      qed
    qed
    have found': "(\<forall>i v k. (i, v) \<in> set (x # xs) \<and> getElementById i s = Some k \<and>
        attached (elements s' ! k) \<longrightarrow>
        TextWrite k (trim (stylesheet s (className s) v)) \<in> set ?evs)"
    proof (intro allI impI)
      fix j w m
      assume a: "(j, w) \<in> set (x # xs) \<and> getElementById j s = Some m \<and>
        attached (elements s' ! m)"
      show "TextWrite m (trim (stylesheet s ?cn w)) \<in> set ?evs"
      proof (cases "(j, w) = x")
        case True
        with a x Some have "m = k" "w = v" by simp_all
        then show ?thesis by simp
      next
        case False
        with a have in_xs: "(j, w) \<in> set xs" by simp
        from a have m: "m < length (elements s)"
          unfolding getElementById_Some_iff by simp
        have am: "attached (elements s' ! m)" using a by simp
        have m1: "m < length (elements ?s1)" using m by (simp add: replace_all_length)
        have a1: "attached (elements ?s1 ! m)"
          using r0 am m1 by (rule refreshed_attached)
        from a have gm: "getElementById j s = Some m" by simp
        have g1: "getElementById j ?s1 = Some m"
          using r1 gm a1 by (rule getElementById_Some_refreshed)
        from in_xs g1 am
        have "(j, w) \<in> set xs \<and> getElementById j ?s1 = Some m \<and> attached (elements s' ! m)"
          by (intro conjI)
        with found
        have "TextWrite m (trim (stylesheet ?s1 (className ?s1) w)) \<in> set evr"
          by (elim allE impE) assumption+
        then show ?thesis by simp
      qed
    qed
    have rest': "(\<forall>k < length (elements s). (\<forall>t. TextWrite k t \<notin> set ?evs) \<longrightarrow>
        content (elements s' ! k) = content (elements s ! k))"
    proof (intro allI impI)
      fix m assume m: "m < length (elements s)" and u: "\<forall>t. TextWrite m t \<notin> set ?evs"
      from u have "m \<noteq> k" and "\<forall>t. TextWrite m t \<notin> set evr" by auto
      then have "content (elements s' ! m) = content (elements ?s1 ! m)"
        using rest m by (simp add: replace_all_length)
      also have "\<dots> = content (elements s ! m)"
        using m \<open>m \<noteq> k\<close> by (simp add: replace_all_nth)
      finally show "content (elements s' ! m) = content (elements s ! m)" .
    qed
    have stay': "(\<forall>k < length (elements s).
        attached (elements s ! k) \<and>
        (\<forall>m t. TextWrite m t \<in> set ?evs \<longrightarrow> k \<notin> set (descendants (elements s) m)) \<longrightarrow>
        attached (elements s' ! k))"
    proof (intro allI impI)
      fix m assume m: "m < length (elements s)"
        and h: "attached (elements s ! m) \<and>
          (\<forall>j t. TextWrite j t \<in> set ?evs \<longrightarrow> m \<notin> set (descendants (elements s) j))"
      from h have "m \<notin> set (descendants (elements s) k)" by simp
      with h m have a1: "attached (elements ?s1 ! m)"
        by (simp add: replace_all_attached_iff)
      have "m \<notin> set (descendants (elements ?s1) j)" if "TextWrite j t \<in> set evr" for j t
      proof -
        from that h have "m \<notin> set (descendants (elements s) j)" by simp
        then show ?thesis
          using descendants_replace_all [of "elements s" k ?t j] by auto
      qed
      with a1 have "attached (elements ?s1 ! m) \<and>
          (\<forall>j t. TextWrite j t \<in> set evr \<longrightarrow> m \<notin> set (descendants (elements ?s1) j))"
        by blast
      moreover have "m < length (elements ?s1)"
        using m by (simp add: replace_all_length)
      ultimately show "attached (elements s' ! m)"
        using stay by blast
    qed
    have "forEach showToken (x # xs) s = Inr s' \<and> refreshed s s' \<and>
     trace s' = trace s @ ?evs \<and>
     (\<forall>v c. StyleRead v c \<in> set ?evs \<longrightarrow>
        (\<exists>i. (i, v) \<in> set (x # xs) \<and> getElementById i s \<noteq> None)) \<and>
     (\<forall>k t. TextWrite k t \<in> set ?evs \<longrightarrow>
        k < length (elements s) \<and> attached (elements s ! k) \<and>
        (\<exists>i v. (i, v) \<in> set (x # xs) \<and> ident (elements s ! k) = Some i \<and>
               t = trim (stylesheet s (className s) v)) \<and>
        content (elements s' ! k) = (if t = [] then [] else [Txt t])) \<and>
     (\<forall>i v k. (i, v) \<in> set (x # xs) \<and> getElementById i s = Some k \<and>
        attached (elements s' ! k) \<longrightarrow>
        TextWrite k (trim (stylesheet s (className s) v)) \<in> set ?evs) \<and>
     (\<forall>k < length (elements s). (\<forall>t. TextWrite k t \<notin> set ?evs) \<longrightarrow>
        content (elements s' ! k) = content (elements s ! k)) \<and>
     (\<forall>k < length (elements s).
        attached (elements s ! k) \<and>
        (\<forall>m t. TextWrite m t \<in> set ?evs \<longrightarrow> k \<notin> set (descendants (elements s) m)) \<longrightarrow>
        attached (elements s' ! k))"
      using run' r tr' reads' writes' found' rest' stay' by (intro conjI)
    then show ?thesis by (intro exI)
  qed
qed

lemma tokenMap_distinct: "distinct (map fst tokenMap)" "distinct (map snd tokenMap)"
  by (simp_all add: tokenMap_def)

lemma forEach_all_absent:
  "\<forall>(i, v) \<in> set xs. getElementById i s = None \<Longrightarrow> forEach showToken xs s = Inr s"
  by (induction xs) (auto simp: showToken_absent bind_r_def)

lemma showToken_writes:
  assumes "getElementById i s = Some k"
  shows "returns (showToken (i, v) s) \<and>
         textContent (elements (page_of (showToken (i, v) s))) k =
           trim (stylesheet s (className s) v)"
proof -
  from assms have "k < length (elements s)"
    unfolding getElementById_Some_iff by simp
  then show ?thesis
    by (simp add: showToken_present [OF assms] returns_def page_of_def textContent_replace_all)
qed



section \<open>Start-up\<close>

lemma or_default_nonempty: "d \<noteq> [] \<Longrightarrow> or_default v d \<noteq> []"
  by (simp add: or_default_def split: option.splits)

lemma init_after_load:
  assumes bs: "brandSelect st = Some bs" and ms: "modeSelect st = Some ms"
    and ld: "loadFromStorage st = Inr ((sb, sm), s1)"
    and fr: "s1 = st\<lparr>trace := trace s1\<rparr>"
  shows "returns (init st) \<and>
         className (page_of (init st)) =
           join_sp (themeClassList (or_default sb ''Brand-A'') (or_default sm ''Lightmode'')
             (className st)) \<and>
         logged_selection (page_of (init st)) =
           Some (or_default sb ''Brand-A'', or_default sm ''Lightmode'') \<and>
         brandSelect (page_of (init st)) = Some (set_value (or_default sb ''Brand-A'') bs) \<and>
         modeSelect (page_of (init st)) = Some (set_value (or_default sm ''Lightmode'') ms) \<and>
         storage (page_of (init st)) = storage st"
proof -
  let ?b = "or_default sb ''Brand-A''" and ?m = "or_default sm ''Lightmode''"
  let ?s3 = "s1\<lparr>brandSelect := Some (set_value ?b bs), modeSelect := Some (set_value ?m ms)\<rparr>"
  obtain s4 where a4: "applyTheme ?b ?m ?s3 = Inr s4"
    using applyTheme_refreshed by blast
  then have p4: "page_of (applyTheme ?b ?m ?s3) = s4"
    by (simp add: page_of_def)
  have b1: "brandSelect s1 = Some bs" and m1: "modeSelect s1 = Some ms"
    and c1: "className s1 = className st" and g1: "storage s1 = storage st"
    using bs ms by (subst fr, simp)+
  have run: "init st = Inr (s4\<lparr>
      brand_listeners := addEventListener HandleBrandChange (brand_listeners s4),
      mode_listeners := addEventListener HandleModeChange (mode_listeners s4),
      trace := trace s4 @ [InitLog ?b ?m (getThemeClass ?b ?m) (className s4)]\<rparr>)"
    by (simp add: init_def ld bind_r_def b1 m1 Let_def a4)
  have cn: "className s4 = join_sp (themeClassList ?b ?m (className st))"
    using applyTheme_className [of ?b ?m ?s3] by (simp add: p4 c1)
  have k: "storage s4 = storage st" "brandSelect s4 = Some (set_value ?b bs)"
    "modeSelect s4 = Some (set_value ?m ms)"
    using applyTheme_keeps [of ?b ?m ?s3] by (simp_all add: p4 g1)
  show ?thesis
    by (simp add: run returns_def page_of_def cn logged_selection_def k)
qed

lemma init_result:
  assumes bs: "brandSelect st = Some bs" and ms: "modeSelect st = Some ms"
  shows "\<exists>sb sm s1. loadFromStorage st = Inr ((sb, sm), s1) \<and>
           (sb, sm) = (if getItem_throws st STORAGE_KEY_BRAND \<or> getItem_throws st STORAGE_KEY_MODE
                       then (None, None)
                       else (storage st STORAGE_KEY_BRAND, storage st STORAGE_KEY_MODE)) \<and>
           returns (init st) \<and>
           className (page_of (init st)) =
             join_sp (themeClassList (or_default sb ''Brand-A'') (or_default sm ''Lightmode'')
               (className st)) \<and>
           logged_selection (page_of (init st)) =
             Some (or_default sb ''Brand-A'', or_default sm ''Lightmode'')"
proof -
  obtain sb sm s1 where ld: "loadFromStorage st = Inr ((sb, sm), s1)"
    and fr: "s1 = st\<lparr>trace := trace s1\<rparr>"
    and v: "(sb, sm) = (if getItem_throws st STORAGE_KEY_BRAND \<or> getItem_throws st STORAGE_KEY_MODE
                       then (None, None)
                       else (storage st STORAGE_KEY_BRAND, storage st STORAGE_KEY_MODE))"
    by (cases "getItem_throws st STORAGE_KEY_BRAND"; cases "getItem_throws st STORAGE_KEY_MODE")
       (simp_all add: loadFromStorage_cases)
  from init_after_load [OF bs ms ld fr] ld v show ?thesis by blast
qed

lemma tokens_after:
  assumes "CHR '' '' \<notin> set (getThemeClass brand mode)"
  shows "set (split_sp (join_sp (themeClassList brand mode cn))) =
           {''Headless-base'', getThemeClass brand mode}"
  using assms by (simp add: split_join_themeClassList themeClassList_set)

text \<open>
  Claim C5. With both select elements present: when the store reads without failure and
  holds \<open>Brand-B\<close> and \<open>Darkmode\<close>, \<open>init\<close> alone returns and leaves the class
  tokens \<open>Headless-base\<close> and \<open>Brand-B-Darkmode\<close>; when the store holds neither key
  or a read throws, \<open>loadFromStorage\<close> gives two absent fields, and \<open>init\<close> returns
  with the selection \<open>Brand-A\<close>, \<open>Lightmode\<close> and the class tokens
  \<open>Headless-base\<close> and \<open>Brand-A-Lightmode\<close>.
\<close>

theorem init_restores_or_defaults:
  assumes "brandSelect st = Some bs" and "modeSelect st = Some ms"
  shows "(\<not> getItem_throws st STORAGE_KEY_BRAND \<and> \<not> getItem_throws st STORAGE_KEY_MODE \<and>
          storage st STORAGE_KEY_BRAND = Some ''Brand-B'' \<and>
          storage st STORAGE_KEY_MODE = Some ''Darkmode'' \<longrightarrow>
            returns (init st) \<and>
            logged_selection (page_of (init st)) = Some (''Brand-B'', ''Darkmode'') \<and>
            set (split_sp (className (page_of (init st)))) =
              {''Headless-base'', ''Brand-B-Darkmode''}) \<and>
         ((storage st STORAGE_KEY_BRAND = None \<and> storage st STORAGE_KEY_MODE = None) \<or>
          getItem_throws st STORAGE_KEY_BRAND \<or> getItem_throws st STORAGE_KEY_MODE \<longrightarrow>
            (\<exists>s1. loadFromStorage st = Inr ((None, None), s1)) \<and>
            returns (init st) \<and>
            logged_selection (page_of (init st)) = Some (''Brand-A'', ''Lightmode'') \<and>
            set (split_sp (className (page_of (init st)))) =
              {''Headless-base'', ''Brand-A-Lightmode''})"
proof -
  obtain sb sm s1 where ld: "loadFromStorage st = Inr ((sb, sm), s1)"
    and v: "(sb, sm) =
      (if getItem_throws st STORAGE_KEY_BRAND \<or> getItem_throws st STORAGE_KEY_MODE
       then (None, None) else (storage st STORAGE_KEY_BRAND, storage st STORAGE_KEY_MODE))"
    and r: "returns (init st)"
    and cn: "className (page_of (init st)) =
      join_sp (themeClassList (or_default sb ''Brand-A'') (or_default sm ''Lightmode'')
        (className st))"
    and lg: "logged_selection (page_of (init st)) =
      Some (or_default sb ''Brand-A'', or_default sm ''Lightmode'')"
    using init_result [OF assms] by blast
  have tb: "set (split_sp (join_sp (themeClassList ''Brand-B'' ''Darkmode'' (className st)))) =
      {''Headless-base'', ''Brand-B-Darkmode''}"
    using tokens_after [of "''Brand-B''" "''Darkmode''" "className st"]
    by (simp add: getThemeClass_def)
  have ta: "set (split_sp (join_sp (themeClassList ''Brand-A'' ''Lightmode'' (className st)))) =
      {''Headless-base'', ''Brand-A-Lightmode''}"
    using tokens_after [of "''Brand-A''" "''Lightmode''" "className st"]
    by (simp add: getThemeClass_def)
  have stored: "returns (init st) \<and>
      logged_selection (page_of (init st)) = Some (''Brand-B'', ''Darkmode'') \<and>
      set (split_sp (className (page_of (init st)))) = {''Headless-base'', ''Brand-B-Darkmode''}"
    if "\<not> getItem_throws st STORAGE_KEY_BRAND" "\<not> getItem_throws st STORAGE_KEY_MODE"
      "storage st STORAGE_KEY_BRAND = Some ''Brand-B''"
      "storage st STORAGE_KEY_MODE = Some ''Darkmode''"
  proof -
    from v that have "sb = Some ''Brand-B''" "sm = Some ''Darkmode''" by simp_all
    then show ?thesis using r cn lg tb by (simp add: or_default_def)
  qed
  have fallback: "(\<exists>s1. loadFromStorage st = Inr ((None, None), s1)) \<and> returns (init st) \<and>
      logged_selection (page_of (init st)) = Some (''Brand-A'', ''Lightmode'') \<and>
      set (split_sp (className (page_of (init st)))) = {''Headless-base'', ''Brand-A-Lightmode''}"
    if "(storage st STORAGE_KEY_BRAND = None \<and> storage st STORAGE_KEY_MODE = None) \<or>
        getItem_throws st STORAGE_KEY_BRAND \<or> getItem_throws st STORAGE_KEY_MODE"
  proof -
    from v that have n: "sb = None" "sm = None" by (auto split: if_splits)
    then show ?thesis using r cn lg ta ld by (simp add: or_default_def)
  qed
  show ?thesis
  proof (rule conjI; rule impI)
    assume h: "\<not> getItem_throws st STORAGE_KEY_BRAND \<and> \<not> getItem_throws st STORAGE_KEY_MODE \<and>
          storage st STORAGE_KEY_BRAND = Some ''Brand-B'' \<and>
          storage st STORAGE_KEY_MODE = Some ''Darkmode''"
    show "returns (init st) \<and>
      logged_selection (page_of (init st)) = Some (''Brand-B'', ''Darkmode'') \<and>
      set (split_sp (className (page_of (init st)))) = {''Headless-base'', ''Brand-B-Darkmode''}"
      by (rule stored) (use h in simp_all)
  next
    assume "(storage st STORAGE_KEY_BRAND = None \<and> storage st STORAGE_KEY_MODE = None) \<or>
          getItem_throws st STORAGE_KEY_BRAND \<or> getItem_throws st STORAGE_KEY_MODE"
    then show "(\<exists>s1. loadFromStorage st = Inr ((None, None), s1)) \<and> returns (init st) \<and>
      logged_selection (page_of (init st)) = Some (''Brand-A'', ''Lightmode'') \<and>
      set (split_sp (className (page_of (init st)))) = {''Headless-base'', ''Brand-A-Lightmode''}"
      by (rule fallback)
  qed
qed

text \<open>The theorem on three concrete pages: a stored selection, an empty store, and a
  store whose reads throw.\<close>

theorem init_restores_or_defaults_witness:
  "storage returning_page STORAGE_KEY_BRAND = Some ''Brand-B'' \<and>
   storage returning_page STORAGE_KEY_MODE = Some ''Darkmode'' \<and>
   returns (init returning_page) \<and>
   set (split_sp (className (page_of (init returning_page)))) =
     {''Headless-base'', ''Brand-B-Darkmode''} \<and>
   storage demo_page STORAGE_KEY_BRAND = None \<and> storage demo_page STORAGE_KEY_MODE = None \<and>
   returns (init demo_page) \<and>
   set (split_sp (className (page_of (init demo_page)))) =
     {''Headless-base'', ''Brand-A-Lightmode''} \<and>
   getItem_throws (returning_page\<lparr>getItem_throws := \<lambda>k. True\<rparr>) STORAGE_KEY_BRAND \<and>
   returns (init (returning_page\<lparr>getItem_throws := \<lambda>k. True\<rparr>)) \<and>
   set (split_sp (className (page_of (init (returning_page\<lparr>getItem_throws := \<lambda>k. True\<rparr>))))) =
     {''Headless-base'', ''Brand-A-Lightmode''}"
proof -
  let ?bs = "\<lparr>options = [''Brand-A'', ''Brand-B''], selected = ''Brand-A''\<rparr>"
  let ?ms = "\<lparr>options = [''Lightmode'', ''Darkmode''], selected = ''Lightmode''\<rparr>"
  let ?off = "returning_page\<lparr>getItem_throws := \<lambda>k. True\<rparr>"
  have d: "brandSelect demo_page = Some ?bs" "modeSelect demo_page = Some ?ms"
    "storage demo_page STORAGE_KEY_BRAND = None" "storage demo_page STORAGE_KEY_MODE = None"
    "\<not> getItem_throws demo_page STORAGE_KEY_BRAND" "\<not> getItem_throws demo_page STORAGE_KEY_MODE"
    by (simp_all add: demo_page_def)
  have p: "brandSelect returning_page = Some ?bs" "modeSelect returning_page = Some ?ms"
    "storage returning_page STORAGE_KEY_BRAND = Some ''Brand-B''"
    "storage returning_page STORAGE_KEY_MODE = Some ''Darkmode''"
    "\<not> getItem_throws returning_page STORAGE_KEY_BRAND"
    "\<not> getItem_throws returning_page STORAGE_KEY_MODE"
    using storage_keys_differ by (simp_all add: returning_page_def d)
  have q: "brandSelect ?off = Some ?bs" "modeSelect ?off = Some ?ms"
    "getItem_throws ?off STORAGE_KEY_BRAND"
    by (simp_all add: p)
  from init_restores_or_defaults [OF p(1,2)] p(3-6)
  have 1: "returns (init returning_page) \<and>
      set (split_sp (className (page_of (init returning_page)))) =
        {''Headless-base'', ''Brand-B-Darkmode''}"
    by simp
  from init_restores_or_defaults [OF d(1,2)] d(3,4)
  have 2: "returns (init demo_page) \<and>
      set (split_sp (className (page_of (init demo_page)))) =
        {''Headless-base'', ''Brand-A-Lightmode''}"
    by simp
  from init_restores_or_defaults [OF q(1,2)] q(3)
  have 3: "returns (init ?off) \<and>
      set (split_sp (className (page_of (init ?off)))) =
        {''Headless-base'', ''Brand-A-Lightmode''}"
    by simp
  from 1 2 3 p(3,4) d(3,4) q(3) show ?thesis by (intro conjI) (elim conjE, assumption)+
qed

text \<open>
  Claim C10. With both select elements present, \<open>init\<close> returns and the selection it
  applies and reports has a non-empty brand and a non-empty mode. A stored empty string
  counts as no stored value: when the brand key holds the empty string or nothing, the
  brand is \<open>Brand-A\<close>; when the mode key holds the empty string or nothing, the mode is
  \<open>Lightmode\<close>.
\<close>

theorem init_empty_string_is_absent:
  assumes "brandSelect st = Some bs" and "modeSelect st = Some ms"
  shows "\<exists>b m. returns (init st) \<and>
           logged_selection (page_of (init st)) = Some (b, m) \<and>
           b \<noteq> [] \<and> m \<noteq> [] \<and>
           className (page_of (init st)) = join_sp (themeClassList b m (className st)) \<and>
           (storage st STORAGE_KEY_BRAND = Some [] \<or> storage st STORAGE_KEY_BRAND = None \<longrightarrow>
              b = ''Brand-A'') \<and>
           (storage st STORAGE_KEY_MODE = Some [] \<or> storage st STORAGE_KEY_MODE = None \<longrightarrow>
              m = ''Lightmode'')"
proof -
  obtain sb sm s1 where ld: "loadFromStorage st = Inr ((sb, sm), s1)"
    and v: "(sb, sm) =
      (if getItem_throws st STORAGE_KEY_BRAND \<or> getItem_throws st STORAGE_KEY_MODE
       then (None, None) else (storage st STORAGE_KEY_BRAND, storage st STORAGE_KEY_MODE))"
    and r: "returns (init st)"
    and cn: "className (page_of (init st)) =
      join_sp (themeClassList (or_default sb ''Brand-A'') (or_default sm ''Lightmode'')
        (className st))"
    and lg: "logged_selection (page_of (init st)) =
      Some (or_default sb ''Brand-A'', or_default sm ''Lightmode'')"
    using init_result [OF assms] by blast
  let ?b = "or_default sb ''Brand-A''" and ?m = "or_default sm ''Lightmode''"
  have "?b \<noteq> []" "?m \<noteq> []"
    by (simp_all add: or_default_nonempty)
  moreover have "?b = ''Brand-A''"
    if "storage st STORAGE_KEY_BRAND = Some [] \<or> storage st STORAGE_KEY_BRAND = None"
    using v that by (auto simp: or_default_def split: if_splits)
  moreover have "?m = ''Lightmode''"
    if "storage st STORAGE_KEY_MODE = Some [] \<or> storage st STORAGE_KEY_MODE = None"
    using v that by (auto simp: or_default_def split: if_splits)
  ultimately have "returns (init st) \<and>
           logged_selection (page_of (init st)) = Some (?b, ?m) \<and>
           ?b \<noteq> [] \<and> ?m \<noteq> [] \<and>
           className (page_of (init st)) = join_sp (themeClassList ?b ?m (className st)) \<and>
           (storage st STORAGE_KEY_BRAND = Some [] \<or> storage st STORAGE_KEY_BRAND = None \<longrightarrow>
              ?b = ''Brand-A'') \<and>
           (storage st STORAGE_KEY_MODE = Some [] \<or> storage st STORAGE_KEY_MODE = None \<longrightarrow>
              ?m = ''Lightmode'')"
    using r cn lg by (intro conjI impI)
  then show ?thesis by (intro exI)
qed

text \<open>The theorem on the concrete page that stores two empty strings and on the one
  with an empty store: the same selection in both.\<close>

theorem init_empty_string_is_absent_witness:
  "storage blank_selection_page STORAGE_KEY_BRAND = Some [] \<and>
   storage blank_selection_page STORAGE_KEY_MODE = Some [] \<and>
   returns (init blank_selection_page) \<and>
   logged_selection (page_of (init blank_selection_page)) = Some (''Brand-A'', ''Lightmode'') \<and>
   storage demo_page STORAGE_KEY_BRAND = None \<and>
   storage demo_page STORAGE_KEY_MODE = None \<and>
   logged_selection (page_of (init demo_page)) = Some (''Brand-A'', ''Lightmode'')"
proof -
  let ?bs = "\<lparr>options = [''Brand-A'', ''Brand-B''], selected = ''Brand-A''\<rparr>"
  let ?ms = "\<lparr>options = [''Lightmode'', ''Darkmode''], selected = ''Lightmode''\<rparr>"
  have d: "brandSelect demo_page = Some ?bs" "modeSelect demo_page = Some ?ms"
    "storage demo_page STORAGE_KEY_BRAND = None" "storage demo_page STORAGE_KEY_MODE = None"
    by (simp_all add: demo_page_def)
  have p: "brandSelect blank_selection_page = Some ?bs" "modeSelect blank_selection_page = Some ?ms"
    "storage blank_selection_page STORAGE_KEY_BRAND = Some []"
    "storage blank_selection_page STORAGE_KEY_MODE = Some []"
    using storage_keys_differ by (simp_all add: blank_selection_page_def d)
  from init_empty_string_is_absent [OF p(1,2)] p(3,4)
  have 1: "returns (init blank_selection_page) \<and>
      logged_selection (page_of (init blank_selection_page)) = Some (''Brand-A'', ''Lightmode'')"
    by (elim exE conjE) simp
  from init_empty_string_is_absent [OF d(1,2)] d(3,4)
  have 2: "logged_selection (page_of (init demo_page)) = Some (''Brand-A'', ''Lightmode'')"
    by (elim exE conjE) simp
  from 1 2 p(3,4) d(3,4) show ?thesis by (intro conjI) (elim conjE, assumption)+
qed

end
